theory Spec2Isabelle
  imports Complex_Main "HOL-Library.AList" "HOL-Library.Sublist"
begin

section \<open>The compliance validator of validate-compliance.py\<close>

text \<open>
  The development embeds \<^verbatim>\<open>ComplianceValidator\<close>: the two dataclasses, the
  aggregation in \<^verbatim>\<open>_add_result\<close>, the scoring and grading at the end of
  \<^verbatim>\<open>validate_all\<close>, and the eight category evaluators.

  Conventions of the embedding.
  \<^item> Python's \<^verbatim>\<open>float\<close> is read as \<^typ>\<open>real\<close>: the arithmetic of the scores is
    exact, rounding of IEEE doubles is not modelled.
  \<^item> The three counters of a category only ever count up from 0, they are \<^typ>\<open>nat\<close>;
    a weight comes from the configuration and is an \<^typ>\<open>int\<close>.
  \<^item> \<^verbatim>\<open>self.results\<close> is a dict, iterated in insertion order: an association list
    whose keys are kept distinct by \<^const>\<open>AList.update\<close> (an existing key is
    replaced in place, a new key goes to the end).
  \<^item> An exception that leaves \<^verbatim>\<open>validate_all\<close> is a value \<open>Inl e\<close>. The
    exceptions modelled are those of line 68 and of reading a file; the calls that only
    look at the file system (\<^verbatim>\<open>exists\<close>, \<^verbatim>\<open>is_dir\<close>, \<^verbatim>\<open>is_file\<close>, the listings)
    are taken to answer. What is proved of an evaluator or of a run is therefore stated of
    the evaluator or run that returns.
\<close>

subsection \<open>Dataclasses\<close>

record ValidationResult =
  category :: string
  check_name :: string
  passed :: bool
  severity :: string
  message :: string
  details :: "string option"

record CategoryResult =
  name :: string
  weight :: int
  checks_passed :: nat
  checks_failed :: nat
  checks_warned :: nat
  score :: real
  results :: "ValidationResult list"

text \<open>\<^verbatim>\<open>CategoryResult(name=category, weight=weight)\<close>: every other field takes its default.\<close>

definition new_CategoryResult :: "string \<Rightarrow> int \<Rightarrow> CategoryResult" where
  "new_CategoryResult n w =
     \<lparr>name = n, weight = w, checks_passed = 0, checks_failed = 0, checks_warned = 0,
      score = 0, results = []\<rparr>"

type_synonym results_dict = "(string \<times> CategoryResult) list"

datatype error =
    KeyError string
  | AttributeError string
  | TypeError string
  | PermissionError string
  | UnicodeDecodeError string
  | IsADirectoryError string

subsection \<open>The rule configuration\<close>

text \<open>
  \<^verbatim>\<open>rules-config.json\<close> is not part of the sources; the configuration is a parameter.
  \<^verbatim>\<open>compliance_grading\<close> is iterated with \<^verbatim>\<open>.items()\<close>, in the order of the
  document.

  \<^verbatim>\<open>validation_categories\<close> is read in one place, line 68:
  \<^verbatim>\<open>self.config['validation_categories'].get(category, {}).get('weight', 10)\<close>.
  The key itself is subscripted, so that its absence is a \<^verbatim>\<open>KeyError\<close>; the value
  under it and the value under a category are asked for \<^verbatim>\<open>.get\<close>, which a JSON value
  that is not an object does not have (\<^verbatim>\<open>AttributeError\<close>). Of an object under a
  category the model keeps the value under \<^verbatim>\<open>weight\<close>, an \<^typ>\<open>int\<close> as the
  dataclass field \<^verbatim>\<open>weight: int\<close> declares it.
\<close>

datatype category_entry = Object "string \<rightharpoonup> int" | NotObject

datatype categories_table = Table "string \<rightharpoonup> category_entry" | NotTable

record grade_config =
  min_percent :: real
  description :: string

text \<open>
  The sections the evaluators subscript are typed records: a configuration that lacks
  one of their keys is outside the model. Flags tested for truth are \<^typ>\<open>bool\<close>.
\<close>

record hooks_config =
  hooks_enabled :: bool
  pre_commit_commands :: "string list"
  pre_push_commands :: "string list"

record documentation_config =
  documentation_enabled :: bool
  required_claude_sections :: "string list"
  wip_directory :: string
  guides_directory :: string
  architecture_directory :: string
  allowed_root_files :: "string list"

record vitest_config =
  vitest_required :: bool
  vitest_config_file :: string
  required_scripts :: "string list"

record playwright_config =
  required_for_web :: bool
  playwright_config_file :: string

record testing_config =
  testing_enabled :: bool
  vitest :: vitest_config
  playwright :: playwright_config

record tool_config =
  tool_required :: bool
  config_file :: string

record quality_script_config =
  quality_script_required :: bool
  quality_script_name :: string

record quality_gates_config =
  quality_gates_enabled :: bool
  eslint :: tool_config
  typescript :: tool_config
  prettier :: tool_config
  quality_script :: quality_script_config

record git_config =
  git_enabled :: bool
  must_include :: "string list"

record security_config =
  security_enabled :: bool
  example_file_name :: string

record naming_config =
  naming_enabled :: bool
  forbidden_suffixes :: "string list"

record migrations_config =
  enabled_for_supabase :: bool

record Config =
  validation_categories :: "categories_table option"
  compliance_grading :: "(string \<times> grade_config) list"
  hooks :: hooks_config
  documentation :: documentation_config
  testing :: testing_config
  quality_gates :: quality_gates_config
  git :: git_config
  security :: security_config
  naming_conventions :: naming_config
  migrations :: migrations_config

subsection \<open>The project snapshot\<close>

text \<open>
  The validator observes the project through \<^verbatim>\<open>pathlib\<close> and \<^verbatim>\<open>os.listdir\<close>.
  A snapshot is the answers to those observations, keyed by the path the code passes,
  relative to \<^verbatim>\<open>project_path\<close>:
  \<^item> \<open>node_at p\<close>: what \<^verbatim>\<open>project_path / p\<close> is, if it exists;
  \<^item> \<open>root_listing\<close>: \<^verbatim>\<open>os.listdir(project_path)\<close>;
  \<^item> \<open>descendants d\<close>: everything below \<^verbatim>\<open>project_path / d\<close>, in the order
    \<^verbatim>\<open>rglob\<close> walks it;
  \<^item> \<open>children d\<close>: the entries of the directory \<^verbatim>\<open>project_path / d\<close>, in the order
    \<^verbatim>\<open>glob\<close> lists them.

  Of a file the model keeps what reading it gives: its text; or, when some bytes do not
  decode, the text that is left when they are dropped (\<^verbatim>\<open>errors='ignore'\<close>); or that
  it cannot be opened.
\<close>

datatype file_data = Text string | Undecodable string | Unreadable

datatype fs_node = RegularFile file_data | Directory

record fs_entry =
  rel_path :: string
  node :: fs_node

record Snapshot =
  node_at :: "string \<Rightarrow> fs_node option"
  root_listing :: "string list"
  descendants :: "string \<Rightarrow> fs_entry list"
  children :: "string \<Rightarrow> fs_entry list"

text \<open>\<^verbatim>\<open>Path.read_text()\<close> and \<^verbatim>\<open>Path.read_text(errors='ignore')\<close>.\<close>

fun read_text :: "string \<Rightarrow> fs_node \<Rightarrow> error + string" where
  "read_text p (RegularFile (Text s)) = Inr s"
| "read_text p (RegularFile (Undecodable s)) = Inl (UnicodeDecodeError p)"
| "read_text p (RegularFile Unreadable) = Inl (PermissionError p)"
| "read_text p Directory = Inl (IsADirectoryError p)"

fun read_text_ignore :: "string \<Rightarrow> fs_node \<Rightarrow> error + string" where
  "read_text_ignore p (RegularFile (Text s)) = Inr s"
| "read_text_ignore p (RegularFile (Undecodable s)) = Inr s"
| "read_text_ignore p (RegularFile Unreadable) = Inl (PermissionError p)"
| "read_text_ignore p Directory = Inl (IsADirectoryError p)"

definition is_file :: "fs_entry \<Rightarrow> bool" where
  "is_file e = (case node e of RegularFile d \<Rightarrow> True | Directory \<Rightarrow> False)"

definition file_exists :: "Snapshot \<Rightarrow> string \<Rightarrow> bool" where
  "file_exists snap path = (node_at snap path \<noteq> None)"

definition is_dir :: "Snapshot \<Rightarrow> string \<Rightarrow> bool" where
  "is_dir snap path = (node_at snap path = Some Directory)"

text \<open>\<^verbatim>\<open>_read_file\<close>: any exception of the read is swallowed and gives \<^verbatim>\<open>None\<close>.\<close>

definition read_file :: "Snapshot \<Rightarrow> string \<Rightarrow> string option" where
  "read_file snap path =
     (case node_at snap path of
        None \<Rightarrow> None
      | Some n \<Rightarrow> (case read_text path n of Inl e \<Rightarrow> None | Inr s \<Rightarrow> Some s))"

subsection \<open>Strings and paths\<close>

text \<open>
  \<^verbatim>\<open>pattern in content\<close>, \<^verbatim>\<open>s.endswith(suf)\<close>, \<^verbatim>\<open>sep.join(xs)\<close>,
  \<^verbatim>\<open>s.replace(a, b)\<close> for single characters, \<^verbatim>\<open>s.rstrip(c)\<close>, \<^verbatim>\<open>str(n)\<close>,
  and \<^verbatim>\<open>s.lower()\<close> on ASCII letters (other characters are left as they are).
\<close>

definition str_in :: "string \<Rightarrow> string \<Rightarrow> bool" where
  "str_in pattern content = sublist pattern content"

definition endswith :: "string \<Rightarrow> string \<Rightarrow> bool" where
  "endswith s suf = suffix suf s"

fun join :: "string \<Rightarrow> string list \<Rightarrow> string" where
  "join sep [] = []"
| "join sep [x] = x"
| "join sep (x # y # ys) = x @ sep @ join sep (y # ys)"

definition replace_char :: "char \<Rightarrow> char \<Rightarrow> string \<Rightarrow> string" where
  "replace_char a b s = map (\<lambda>c. if c = a then b else c) s"

definition rstrip_char :: "char \<Rightarrow> string \<Rightarrow> string" where
  "rstrip_char c s = rev (dropWhile (\<lambda>x. x = c) (rev s))"

definition lower :: "string \<Rightarrow> string" where
  "lower s =
     map (\<lambda>c. if (65::nat) \<le> of_char c \<and> of_char c \<le> (90::nat)
               then char_of (of_char c + (32::nat)) else c) s"

definition digit_char :: "nat \<Rightarrow> char" where
  "digit_char d = char_of (48 + d)"

fun str_of_nat :: "nat \<Rightarrow> string" where
  "str_of_nat n =
     (if n < 10 then [digit_char n] else str_of_nat (n div 10) @ [digit_char (n mod 10)])"

declare str_of_nat.simps [simp del]

text \<open>\<^verbatim>\<open>Path.name\<close> of a relative path, and \<^verbatim>\<open>Path.stem\<close> as pathlib computes it.\<close>

definition basename :: "string \<Rightarrow> string" where
  "basename p = rev (takeWhile (\<lambda>c. c \<noteq> CHR ''/'') (rev p))"

fun rfind :: "char \<Rightarrow> string \<Rightarrow> nat option" where
  "rfind c [] = None"
| "rfind c (x # xs) =
     (case rfind c xs of
        Some i \<Rightarrow> Some (Suc i)
      | None \<Rightarrow> if x = c then Some 0 else None)"

definition stem :: "string \<Rightarrow> string" where
  "stem nm =
     (case rfind (CHR ''.'') nm of
        None \<Rightarrow> nm
      | Some i \<Rightarrow> if 0 < i \<and> i + 1 < length nm then take i nm else nm)"

text \<open>
  The name matching of \<^verbatim>\<open>glob\<close> and \<^verbatim>\<open>rglob\<close>: pathlib translates a pattern
  with \<^verbatim>\<open>fnmatch\<close>, where \<^verbatim>\<open>*\<close> stands for any run of characters,
  \<^verbatim>\<open>?\<close> for one character, and every other character of the three patterns the
  validator uses for itself; braces are not expanded.
\<close>

fun glob_match :: "string \<Rightarrow> string \<Rightarrow> bool" where
  "glob_match [] s = (s = [])"
| "glob_match (p # ps) [] = (p = CHR ''*'' \<and> glob_match ps [])"
| "glob_match (p # ps) (c # cs) =
     (if p = CHR ''*'' then glob_match ps (c # cs) \<or> glob_match (p # ps) cs
      else if p = CHR ''?'' then glob_match ps cs
      else p = c \<and> glob_match ps cs)"

definition rglob :: "Snapshot \<Rightarrow> string \<Rightarrow> string \<Rightarrow> fs_entry list" where
  "rglob snap dir_name pattern =
     filter (\<lambda>e. glob_match pattern (basename (rel_path e))) (descendants snap dir_name)"

definition glob :: "Snapshot \<Rightarrow> string \<Rightarrow> string \<Rightarrow> fs_entry list" where
  "glob snap dir_name pattern =
     filter (\<lambda>e. glob_match pattern (basename (rel_path e))) (children snap dir_name)"

subsection \<open>\<^verbatim>\<open>_add_result\<close>\<close>

text \<open>
  \<^verbatim>\<open>self.config['validation_categories'].get(category, {}).get('weight', 10)\<close>,
  evaluated only when the category is new.
\<close>

definition category_weight :: "Config \<Rightarrow> string \<Rightarrow> error + int" where
  "category_weight cfg c =
     (case validation_categories cfg of
        None \<Rightarrow> Inl (KeyError ''validation_categories'')
      | Some NotTable \<Rightarrow> Inl (AttributeError ''get'')
      | Some (Table vc) \<Rightarrow>
          (case (case vc c of None \<Rightarrow> Object Map.empty | Some entry \<Rightarrow> entry) of
             NotObject \<Rightarrow> Inl (AttributeError ''get'')
           | Object entry \<Rightarrow>
               Inr (case entry ''weight'' of None \<Rightarrow> 10 | Some w \<Rightarrow> w)))"

text \<open>The three-way tally at the end of \<^verbatim>\<open>_add_result\<close>, after the append.\<close>

definition tally :: "ValidationResult \<Rightarrow> CategoryResult \<Rightarrow> CategoryResult" where
  "tally result cat =
     (let cat = cat\<lparr>results := results cat @ [result]\<rparr> in
      if passed result then cat\<lparr>checks_passed := checks_passed cat + 1\<rparr>
      else if severity result = ''critical'' then cat\<lparr>checks_failed := checks_failed cat + 1\<rparr>
      else cat\<lparr>checks_warned := checks_warned cat + 1\<rparr>)"

definition add_result :: "Config \<Rightarrow> ValidationResult \<Rightarrow> results_dict \<Rightarrow> error + results_dict" where
  "add_result cfg result st =
     (case map_of st (category result) of
        None \<Rightarrow>
          (case category_weight cfg (category result) of
             Inl e \<Rightarrow> Inl e
           | Inr w \<Rightarrow>
               Inr (AList.update (category result)
                      (tally result (new_CategoryResult (category result) w)) st))
      | Some cat \<Rightarrow> Inr (AList.update (category result) (tally result cat) st))"

text \<open>
  What a sequence of calls of \<^verbatim>\<open>_add_result\<close> does, one outcome after the other; the
  first exception ends the run. The evaluators below call \<^verbatim>\<open>_add_result\<close> themselves;
  this function serves to state what they have recorded.
\<close>

fun record_all :: "Config \<Rightarrow> ValidationResult list \<Rightarrow> results_dict \<Rightarrow> error + results_dict" where
  "record_all cfg [] st = Inr st"
| "record_all cfg (r # rs) st =
     (case add_result cfg r st of Inl e \<Rightarrow> Inl e | Inr st' \<Rightarrow> record_all cfg rs st')"

subsection \<open>Sequencing\<close>

definition and_then ::
  "error + results_dict \<Rightarrow> (results_dict \<Rightarrow> error + results_dict) \<Rightarrow> error + results_dict" where
  "and_then m f = (case m of Inl e \<Rightarrow> Inl e | Inr st \<Rightarrow> f st)"

text \<open>A \<^verbatim>\<open>for\<close> loop whose body records outcomes and may raise.\<close>

fun for_each ::
  "'a list \<Rightarrow> ('a \<Rightarrow> results_dict \<Rightarrow> error + results_dict) \<Rightarrow> results_dict
     \<Rightarrow> error + results_dict" where
  "for_each [] body st = Inr st"
| "for_each (x # xs) body st = and_then (body x st) (for_each xs body)"

text \<open>
  \<^verbatim>\<open>_check_file_contains\<close>, and the loops that take the first path that exists.
\<close>

definition check_file_contains :: "Snapshot \<Rightarrow> string \<Rightarrow> string \<Rightarrow> bool" where
  "check_file_contains snap path pattern =
     (case read_file snap path of None \<Rightarrow> False | Some content \<Rightarrow> str_in pattern content)"

definition first_existing :: "Snapshot \<Rightarrow> string list \<Rightarrow> string option" where
  "first_existing snap paths = find (file_exists snap) paths"

subsection \<open>\<^verbatim>\<open>validate_hooks\<close>\<close>

definition validate_hooks :: "Config \<Rightarrow> Snapshot \<Rightarrow> results_dict \<Rightarrow> error + results_dict" where
  "validate_hooks cfg snap st =
     (if \<not> hooks_enabled (hooks cfg) then Inr st
      else
        let lefthook_path =
              (if file_exists snap ''.lefthook.yml'' then Some ''.lefthook.yml''
               else if file_exists snap ''lefthook.yml'' then Some ''lefthook.yml''
               else None)
        in
        and_then
          (add_result cfg
             \<lparr>category = ''hooks'', check_name = ''lefthook_config_exists'',
              passed = (lefthook_path \<noteq> None), severity = ''critical'',
              message = ''lefthook.yml configuration file'',
              details = Some (case lefthook_path of
                                None \<Rightarrow> ''Not found''
                              | Some p \<Rightarrow> ''Found: '' @ p)\<rparr> st)
          (\<lambda>st.
        and_then
          (case lefthook_path of
             None \<Rightarrow> Inr st
           | Some p \<Rightarrow>
               and_then
                 (for_each (pre_commit_commands (hooks cfg))
                    (\<lambda>cmd st.
                       let has_cmd = check_file_contains snap p (cmd @ '':'') in
                       add_result cfg
                         \<lparr>category = ''hooks'', check_name = ''pre_commit_'' @ cmd,
                          passed = has_cmd, severity = ''warning'',
                          message = ''Pre-commit hook: '' @ cmd,
                          details = Some (if \<not> has_cmd then ''Missing'' else ''Configured'')\<rparr> st)
                    st)
                 (for_each (pre_push_commands (hooks cfg))
                    (\<lambda>cmd st.
                       let has_cmd = check_file_contains snap p (cmd @ '':'') in
                       add_result cfg
                         \<lparr>category = ''hooks'', check_name = ''pre_push_'' @ cmd,
                          passed = has_cmd, severity = ''warning'',
                          message = ''Pre-push hook: '' @ cmd,
                          details = Some (if \<not> has_cmd then ''Missing'' else ''Configured'')\<rparr> st)))
          (\<lambda>st.
             let claude_settings = file_exists snap ''.claude/settings.json'' in
             add_result cfg
               \<lparr>category = ''hooks'', check_name = ''claude_settings_exists'',
                passed = claude_settings, severity = ''warning'',
                message = ''Claude Code settings.json'',
                details = Some (if \<not> claude_settings then ''Not found'' else ''Found'')\<rparr> st)))"

subsection \<open>\<^verbatim>\<open>validate_documentation\<close>\<close>

text \<open>
  \<^verbatim>\<open>claude_content\<close> is what \<^verbatim>\<open>_read_file\<close> returned; it is \<^verbatim>\<open>None\<close> when
  \<^verbatim>\<open>CLAUDE.md\<close> exists and cannot be read, and then the test
  \<^verbatim>\<open>f'## {section}' in claude_content\<close> of the first section raises \<^verbatim>\<open>TypeError\<close>.
\<close>

definition validate_documentation ::
  "Config \<Rightarrow> Snapshot \<Rightarrow> results_dict \<Rightarrow> error + results_dict" where
  "validate_documentation cfg snap st =
     (if \<not> documentation_enabled (documentation cfg) then Inr st
      else
        let claude_md_exists = file_exists snap ''CLAUDE.md'' in
        and_then
          (add_result cfg
             \<lparr>category = ''documentation'', check_name = ''claude_md_exists'',
              passed = claude_md_exists, severity = ''critical'',
              message = ''CLAUDE.md file exists'',
              details = Some (if \<not> claude_md_exists then ''Not found'' else ''Found'')\<rparr> st)
          (\<lambda>st.
        and_then
          (if claude_md_exists then
             let claude_content = read_file snap ''CLAUDE.md'' in
             for_each (required_claude_sections (documentation cfg))
               (\<lambda>section st.
                  case claude_content of
                    None \<Rightarrow> Inl (TypeError ''argument of type NoneType is not iterable'')
                  | Some content \<Rightarrow>
                      let has_section = str_in (''## '' @ section) content in
                      add_result cfg
                        \<lparr>category = ''documentation'',
                         check_name = ''claude_section_''
                            @ replace_char (CHR '' '') (CHR ''_'') (lower section),
                         passed = has_section, severity = ''warning'',
                         message = ''CLAUDE.md section: '' @ section,
                         details = Some (if \<not> has_section then ''Missing'' else ''Present'')\<rparr> st)
               st
           else Inr st)
          (\<lambda>st.
        let wip_dir = wip_directory (documentation cfg) in
        and_then
          (add_result cfg
             \<lparr>category = ''documentation'', check_name = ''wip_directory_exists'',
              passed = file_exists snap wip_dir, severity = ''info'',
              message = ''WIP directory: '' @ wip_dir,
              details = Some ''Recommended but not required''\<rparr> st)
          (\<lambda>st.
             let root_md_files =
                   filter (\<lambda>f. endswith f ''.md''
                                \<and> f \<notin> set (allowed_root_files (documentation cfg)))
                     (root_listing snap);
                 has_forbidden = (length root_md_files > 0)
             in
             add_result cfg
               \<lparr>category = ''documentation'', check_name = ''no_forbidden_root_md'',
                passed = (\<not> has_forbidden), severity = ''critical'',
                message = ''No forbidden root .md files'',
                details = Some (if has_forbidden then ''Found: '' @ join '', '' root_md_files
                                else ''Clean'')\<rparr> st))))"

subsection \<open>\<^verbatim>\<open>validate_testing\<close>\<close>

definition validate_testing :: "Config \<Rightarrow> Snapshot \<Rightarrow> results_dict \<Rightarrow> error + results_dict" where
  "validate_testing cfg snap st =
     (if \<not> testing_enabled (testing cfg) then Inr st
      else
        let vitest_cfg = vitest (testing cfg);
            playwright_cfg = playwright (testing cfg)
        in
        and_then
          (if vitest_required vitest_cfg then
             let vitest_path =
                   first_existing snap
                     [vitest_config_file vitest_cfg, ''apps/web/vitest.config.ts'',
                      ''apps/web/vitest.config.js'']
             in
             and_then
               (add_result cfg
                  \<lparr>category = ''testing'', check_name = ''vitest_config_exists'',
                   passed = (vitest_path \<noteq> None), severity = ''critical'',
                   message = ''Vitest configuration file'',
                   details = Some (case vitest_path of
                                     None \<Rightarrow> ''Not found''
                                   | Some p \<Rightarrow> ''Found: '' @ p)\<rparr> st)
               (\<lambda>st.
             and_then
               (case vitest_path of
                  None \<Rightarrow> Inr st
                | Some p \<Rightarrow>
                    let has_coverage = check_file_contains snap p ''thresholds'' in
                    add_result cfg
                      \<lparr>category = ''testing'', check_name = ''vitest_coverage_configured'',
                       passed = has_coverage, severity = ''warning'',
                       message = ''Vitest coverage thresholds configured'',
                       details = Some (if \<not> has_coverage then ''Missing'' else ''Configured'')\<rparr> st)
               (\<lambda>st.
                  case read_file snap ''package.json'' of
                    None \<Rightarrow> Inr st
                  | Some package_json \<Rightarrow>
                      if package_json = [] then Inr st
                      else
                        for_each (required_scripts vitest_cfg)
                          (\<lambda>script st.
                             let has_script = str_in script package_json in
                             add_result cfg
                               \<lparr>category = ''testing'',
                                check_name = ''test_script_''
                                   @ replace_char (CHR '':'') (CHR ''_'') script,
                                passed = has_script, severity = ''warning'',
                                message = ''Test script: '' @ script,
                                details = Some (if \<not> has_script then ''Missing'' else ''Present'')\<rparr> st)
                          st))
           else Inr st)
          (\<lambda>st.
             if required_for_web playwright_cfg then
               if file_exists snap ''next.config.js'' \<or> file_exists snap ''next.config.mjs'' then
                 add_result cfg
                   \<lparr>category = ''testing'', check_name = ''playwright_config_exists'',
                    passed = file_exists snap (playwright_config_file playwright_cfg),
                    severity = ''info'',
                    message = ''Playwright E2E testing configured'',
                    details = Some ''Recommended for web projects''\<rparr> st
               else Inr st
             else Inr st))"

subsection \<open>\<^verbatim>\<open>validate_quality_gates\<close>\<close>

definition validate_quality_gates ::
  "Config \<Rightarrow> Snapshot \<Rightarrow> results_dict \<Rightarrow> error + results_dict" where
  "validate_quality_gates cfg snap st =
     (if \<not> quality_gates_enabled (quality_gates cfg) then Inr st
      else
        let eslint_cfg = eslint (quality_gates cfg);
            ts_cfg = typescript (quality_gates cfg);
            prettier_cfg = prettier (quality_gates cfg);
            script_cfg = quality_script (quality_gates cfg)
        in
        and_then
          (if tool_required eslint_cfg then
             let eslint_path =
                   first_existing snap
                     [config_file eslint_cfg, ''.eslintrc.json'', ''.eslintrc.js'',
                      ''eslint.config.js'', ''apps/web/eslint.config.mjs'',
                      ''apps/web/.eslintrc.json'']
             in
             add_result cfg
               \<lparr>category = ''quality_gates'', check_name = ''eslint_config_exists'',
                passed = (eslint_path \<noteq> None), severity = ''critical'',
                message = ''ESLint configuration file'',
                details = Some (case eslint_path of
                                  None \<Rightarrow> ''Not found''
                                | Some p \<Rightarrow> ''Found: '' @ p)\<rparr> st
           else Inr st)
          (\<lambda>st.
        and_then
          (if tool_required ts_cfg then
             let ts_exists = file_exists snap (config_file ts_cfg) in
             and_then
               (add_result cfg
                  \<lparr>category = ''quality_gates'', check_name = ''typescript_config_exists'',
                   passed = ts_exists, severity = ''critical'',
                   message = ''TypeScript configuration file'',
                   details = Some (if \<not> ts_exists then ''Not found'' else ''Found'')\<rparr> st)
               (\<lambda>st.
                  if ts_exists then
                    let has_strict =
                          check_file_contains snap (config_file ts_cfg)
                            (CHR 0x22 # ''strict'' @ CHR 0x22 # '': true'')
                    in
                    add_result cfg
                      \<lparr>category = ''quality_gates'', check_name = ''typescript_strict_mode'',
                       passed = has_strict, severity = ''warning'',
                       message = ''TypeScript strict mode enabled'',
                       details = Some (if \<not> has_strict then ''Not enabled'' else ''Enabled'')\<rparr> st
                  else Inr st)
           else Inr st)
          (\<lambda>st.
        and_then
          (if tool_required prettier_cfg then
             let prettier_exists = file_exists snap (config_file prettier_cfg) in
             add_result cfg
               \<lparr>category = ''quality_gates'', check_name = ''prettier_config_exists'',
                passed = prettier_exists, severity = ''warning'',
                message = ''Prettier configuration file'',
                details = Some (if \<not> prettier_exists then ''Not found'' else ''Found'')\<rparr> st
           else Inr st)
          (\<lambda>st.
             if quality_script_required script_cfg then
               case read_file snap ''package.json'' of
                 None \<Rightarrow> Inr st
               | Some package_json \<Rightarrow>
                   if package_json = [] then Inr st
                   else
                     let has_quality = str_in (quality_script_name script_cfg) package_json in
                     add_result cfg
                       \<lparr>category = ''quality_gates'', check_name = ''quality_script_exists'',
                        passed = has_quality, severity = ''warning'',
                        message = ''Quality script in package.json'',
                        details = Some (if \<not> has_quality then ''Missing'' else ''Present'')\<rparr> st
             else Inr st))))"

subsection \<open>\<^verbatim>\<open>validate_git\<close>\<close>

text \<open>
  As in \<^verbatim>\<open>validate_documentation\<close>, \<^verbatim>\<open>gitignore_content\<close> is \<^verbatim>\<open>None\<close> when
  \<^verbatim>\<open>.gitignore\<close> exists and cannot be read, and the first \<^verbatim>\<open>in\<close> test raises.
\<close>

definition validate_git :: "Config \<Rightarrow> Snapshot \<Rightarrow> results_dict \<Rightarrow> error + results_dict" where
  "validate_git cfg snap st =
     (if \<not> git_enabled (git cfg) then Inr st
      else
        let gitignore_exists = file_exists snap ''.gitignore'' in
        and_then
          (add_result cfg
             \<lparr>category = ''git'', check_name = ''gitignore_exists'',
              passed = gitignore_exists, severity = ''critical'',
              message = ''.gitignore file exists'',
              details = Some (if \<not> gitignore_exists then ''Not found'' else ''Found'')\<rparr> st)
          (\<lambda>st.
             if gitignore_exists then
               let gitignore_content = read_file snap ''.gitignore'' in
               for_each (must_include (git cfg))
                 (\<lambda>entry st.
                    case gitignore_content of
                      None \<Rightarrow> Inl (TypeError ''argument of type NoneType is not iterable'')
                    | Some content \<Rightarrow>
                        let entry_base = rstrip_char (CHR ''/'') entry;
                            has_entry = (str_in entry content \<or> str_in entry_base content)
                        in
                        add_result cfg
                          \<lparr>category = ''git'',
                           check_name = ''gitignore_has_''
                              @ replace_char (CHR ''.'') (CHR ''_'')
                                  (replace_char (CHR ''/'') (CHR ''_'') entry),
                           passed = has_entry, severity = ''info'',
                           message = ''.gitignore includes '' @ entry,
                           details = Some (if \<not> has_entry then ''Missing'' else ''Present'')\<rparr> st)
                 st
             else Inr st))"

subsection \<open>\<^verbatim>\<open>validate_security\<close>\<close>

definition dangerous_patterns :: "(string \<times> string) list" where
  "dangerous_patterns =
     [(''sk_live_'', ''Stripe live key''),
      (''pk_live_'', ''Stripe live publishable key''),
      (''AKIA'', ''AWS access key'')]"

definition security_source_dirs :: "string list" where
  "security_source_dirs = [''app'', ''src'', ''lib'', ''pages'', ''components'']"

text \<open>The pattern the scan hands to \<^verbatim>\<open>rglob\<close>, character for character.\<close>

definition secret_scan_pattern :: string where
  "secret_scan_pattern = ''*.{ts,tsx,js,jsx}''"

text \<open>
  The innermost loop, over the patterns, for one file's content: the first pattern found
  records an outcome and \<^verbatim>\<open>break\<close> leaves this loop (and only this one).
\<close>

fun scan_patterns ::
  "Config \<Rightarrow> string \<Rightarrow> string \<Rightarrow> (string \<times> string) list \<Rightarrow> results_dict
     \<Rightarrow> error + results_dict" where
  "scan_patterns cfg path content [] st = Inr st"
| "scan_patterns cfg path content ((pattern, pname) # rest) st =
     (if str_in pattern content then
        add_result cfg
          \<lparr>category = ''security'', check_name = ''no_hardcoded_secrets'',
           passed = False, severity = ''critical'',
           message = ''Potential '' @ pname @ '' hardcoded'',
           details = Some (''Found in '' @ path)\<rparr> st
      else scan_patterns cfg path content rest st)"

text \<open>The body of the loop over the files \<^verbatim>\<open>rglob\<close> yields: read, then scan.\<close>

definition scan_file :: "Config \<Rightarrow> fs_entry \<Rightarrow> results_dict \<Rightarrow> error + results_dict" where
  "scan_file cfg e st =
     (case read_text_ignore (rel_path e) (node e) of
        Inl err \<Rightarrow> Inl err
      | Inr content \<Rightarrow> scan_patterns cfg (rel_path e) content dangerous_patterns st)"

definition scanned_files :: "Snapshot \<Rightarrow> string \<Rightarrow> fs_entry list" where
  "scanned_files snap dir_name =
     (if file_exists snap dir_name \<and> is_dir snap dir_name
      then rglob snap dir_name secret_scan_pattern else [])"

definition validate_security :: "Config \<Rightarrow> Snapshot \<Rightarrow> results_dict \<Rightarrow> error + results_dict" where
  "validate_security cfg snap st =
     (if \<not> security_enabled (security cfg) then Inr st
      else
        let env_example = example_file_name (security cfg);
            env_example_exists = file_exists snap env_example
        in
        and_then
          (add_result cfg
             \<lparr>category = ''security'', check_name = ''env_example_exists'',
              passed = env_example_exists, severity = ''warning'',
              message = env_example @ '' file exists'',
              details = Some (if \<not> env_example_exists then ''Not found (recommended)''
                              else ''Found'')\<rparr> st)
          (for_each security_source_dirs
             (\<lambda>dir_name. for_each (scanned_files snap dir_name) (scan_file cfg))))"

subsection \<open>\<^verbatim>\<open>validate_naming_conventions\<close>\<close>

definition naming_source_dirs :: "string list" where
  "naming_source_dirs = [''app'', ''src'', ''lib'', ''pages'', ''components'', ''packages'']"

text \<open>
  The three nested loops that fill \<^verbatim>\<open>files_with_suffixes\<close>: a file is listed once,
  at the first forbidden suffix its stem ends with.
\<close>

definition files_with_suffixes :: "Config \<Rightarrow> Snapshot \<Rightarrow> string list" where
  "files_with_suffixes cfg snap =
     concat
       (map (\<lambda>dir_name.
               if file_exists snap dir_name \<and> is_dir snap dir_name then
                 map rel_path
                   (filter (\<lambda>e. is_file e
                                 \<and> list_ex (endswith (stem (basename (rel_path e))))
                                     (forbidden_suffixes (naming_conventions cfg)))
                      (rglob snap dir_name ''*''))
               else [])
          naming_source_dirs)"

definition validate_naming_conventions ::
  "Config \<Rightarrow> Snapshot \<Rightarrow> results_dict \<Rightarrow> error + results_dict" where
  "validate_naming_conventions cfg snap st =
     (if \<not> naming_enabled (naming_conventions cfg) then Inr st
      else
        let found = files_with_suffixes cfg snap;
            has_forbidden_suffixes = (length found > 0)
        in
        add_result cfg
          \<lparr>category = ''naming_conventions'', check_name = ''no_version_suffixes'',
           passed = (\<not> has_forbidden_suffixes), severity = ''critical'',
           message = ''No version/enhancement suffixes in filenames'',
           details = Some (if has_forbidden_suffixes then
                             ''Found '' @ str_of_nat (length found) @ '' files: ''
                               @ join '', '' (take 3 found)
                               @ (if length found > 3 then ''...'' else [])
                           else ''Clean'')\<rparr> st)"

subsection \<open>\<^verbatim>\<open>validate_migrations\<close>\<close>

definition migration_issues :: "string \<Rightarrow> string list" where
  "migration_issues content =
     (if str_in ''CREATE POLICY'' content \<and> \<not> str_in ''DO $$'' content
      then [''CREATE POLICY without DO $$ block''] else [])
     @ (if str_in ''CREATE TRIGGER'' content \<and> \<not> str_in ''DROP TRIGGER IF EXISTS'' content
        then [''CREATE TRIGGER without DROP IF EXISTS''] else [])
     @ (if str_in ''ADD CONSTRAINT'' content \<and> \<not> str_in ''DO $$'' content
        then [''ADD CONSTRAINT without idempotency check''] else [])"

text \<open>
  The loop over \<^verbatim>\<open>glob('*.sql')\<close>. \<^verbatim>\<open>migration_file.read_text()\<close> stands
  outside any \<^verbatim>\<open>try\<close>: what it raises ends the run.
\<close>

fun scan_migrations :: "fs_entry list \<Rightarrow> string list \<Rightarrow> error + string list" where
  "scan_migrations [] non_idempotent_files = Inr non_idempotent_files"
| "scan_migrations (migration_file # rest) non_idempotent_files =
     (case read_text (rel_path migration_file) (node migration_file) of
        Inl err \<Rightarrow> Inl err
      | Inr content \<Rightarrow>
          let issues = migration_issues content in
          if issues \<noteq> [] then
            scan_migrations rest
              (non_idempotent_files
                 @ [basename (rel_path migration_file) @ '': '' @ join '', '' issues])
          else scan_migrations rest non_idempotent_files)"

definition validate_migrations :: "Config \<Rightarrow> Snapshot \<Rightarrow> results_dict \<Rightarrow> error + results_dict" where
  "validate_migrations cfg snap st =
     (if \<not> enabled_for_supabase (migrations cfg) then Inr st
      else
        let migrations_dir =
              (if \<not> file_exists snap ''supabase/migrations''
               then ''apps/web/supabase/migrations'' else ''supabase/migrations'')
        in
        if \<not> file_exists snap migrations_dir then Inr st
        else
          case scan_migrations (glob snap migrations_dir ''*.sql'') [] of
            Inl err \<Rightarrow> Inl err
          | Inr non_idempotent_files \<Rightarrow>
              let has_issues = (length non_idempotent_files > 0) in
              add_result cfg
                \<lparr>category = ''migrations'', check_name = ''migrations_idempotent'',
                 passed = (\<not> has_issues), severity = ''critical'',
                 message = ''All migrations are idempotent'',
                 details = Some (if has_issues then
                                   ''Issues in '' @ str_of_nat (length non_idempotent_files)
                                     @ '' files: ''
                                     @ join ''; '' (take 2 non_idempotent_files)
                                     @ (if length non_idempotent_files > 2 then ''...'' else [])
                                 else ''All idempotent'')\<rparr> st)"

subsection \<open>The evaluators in sequence\<close>

text \<open>The eight evaluators in the order \<^verbatim>\<open>validate_all\<close> calls them, from no results.\<close>

definition run_validators :: "Config \<Rightarrow> Snapshot \<Rightarrow> error + results_dict" where
  "run_validators cfg snap =
     and_then (validate_hooks cfg snap [])
       (\<lambda>st. and_then (validate_documentation cfg snap st)
       (\<lambda>st. and_then (validate_testing cfg snap st)
       (\<lambda>st. and_then (validate_quality_gates cfg snap st)
       (\<lambda>st. and_then (validate_git cfg snap st)
       (\<lambda>st. and_then (validate_security cfg snap st)
       (\<lambda>st. and_then (validate_naming_conventions cfg snap st)
       (\<lambda>st. validate_migrations cfg snap st)))))))"

subsection \<open>Scores and grade: the end of \<^verbatim>\<open>validate_all\<close>\<close>

definition total_checks :: "CategoryResult \<Rightarrow> nat" where
  "total_checks result = checks_passed result + checks_failed result + checks_warned result"

text \<open>
  The loop over \<^verbatim>\<open>self.results.items()\<close> with its two accumulators; it writes
  \<^verbatim>\<open>result.score\<close> of every category that has a check.
\<close>

fun calculate_scores :: "results_dict \<Rightarrow> real \<Rightarrow> int \<Rightarrow> results_dict \<times> real \<times> int" where
  "calculate_scores [] total_score total_weight = ([], total_score, total_weight)"
| "calculate_scores ((c, result) # rest) total_score total_weight =
     (if total_checks result > 0 then
        (let passed_score = real (checks_passed result);
             warned_score = real (checks_warned result) * 0.5;
             result' = result\<lparr>score := ((passed_score + warned_score) / real (total_checks result)) * 100\<rparr>;
             weighted_score = score result' * real_of_int (weight result')
         in case calculate_scores rest (total_score + weighted_score) (total_weight + weight result') of
              (rest', ts, tw) \<Rightarrow> ((c, result') # rest', ts, tw))
      else
        (case calculate_scores rest total_score total_weight of
           (rest', ts, tw) \<Rightarrow> ((c, result) # rest', ts, tw)))"

text \<open>The grade loop: \<^verbatim>\<open>'F'\<close> unless a band is met; the first band met wins.\<close>

fun determine_grade :: "(string \<times> grade_config) list \<Rightarrow> real \<Rightarrow> string" where
  "determine_grade [] overall = ''F''"
| "determine_grade ((grade_name, gc) # rest) overall =
     (if overall \<ge> min_percent gc then grade_name else determine_grade rest overall)"

record ValidationReport =
  overall_score :: real
  grade :: string
  categories :: results_dict

definition score_results :: "Config \<Rightarrow> results_dict \<Rightarrow> ValidationReport" where
  "score_results cfg st =
     (case calculate_scores st 0 0 of
        (st', total_score, total_weight) \<Rightarrow>
          (let overall = (if total_weight > 0 then total_score / real_of_int total_weight else 0)
           in \<lparr>overall_score = overall,
               grade = determine_grade (compliance_grading cfg) overall,
               categories = st'\<rparr>))"


text \<open>
  \<^verbatim>\<open>validate_all\<close>: the evaluators, then the scores; the report holds what
  \<^verbatim>\<open>export_json\<close> reads (the returned pair and \<^verbatim>\<open>self.results\<close>).
\<close>

definition validate_all :: "Config \<Rightarrow> Snapshot \<Rightarrow> error + ValidationReport" where
  "validate_all cfg snap =
     (case run_validators cfg snap of
        Inl e \<Rightarrow> Inl e
      | Inr st \<Rightarrow> Inr (score_results cfg st))"

section \<open>Definitions used to state the properties\<close>

subsection \<open>What a run has recorded\<close>

text \<open>
  The counters and the outcome list a category must hold once the outcomes \<open>outs\<close> have
  been recorded, in terms of \<open>outs\<close> alone.
\<close>

definition n_passed :: "string \<Rightarrow> ValidationResult list \<Rightarrow> nat" where
  "n_passed c outs = length (filter (\<lambda>r. category r = c \<and> passed r) outs)"

definition n_failed :: "string \<Rightarrow> ValidationResult list \<Rightarrow> nat" where
  "n_failed c outs =
     length (filter (\<lambda>r. category r = c \<and> \<not> passed r \<and> severity r = ''critical'') outs)"

definition n_warned :: "string \<Rightarrow> ValidationResult list \<Rightarrow> nat" where
  "n_warned c outs =
     length (filter (\<lambda>r. category r = c \<and> \<not> passed r \<and> severity r \<noteq> ''critical'') outs)"

definition tally_of :: "int \<Rightarrow> string \<Rightarrow> ValidationResult list \<Rightarrow> CategoryResult" where
  "tally_of w c outs =
     \<lparr>name = c, weight = w, checks_passed = n_passed c outs, checks_failed = n_failed c outs,
      checks_warned = n_warned c outs, score = 0, results = filter (\<lambda>r. category r = c) outs\<rparr>"

definition tallied :: "Config \<Rightarrow> ValidationResult list \<Rightarrow> results_dict \<Rightarrow> bool" where
  "tallied cfg outs st \<longleftrightarrow>
     distinct (map fst st) \<and>
     (\<forall>c. map_of st c =
        (if c \<in> category ` set outs
         then (case category_weight cfg c of Inr w \<Rightarrow> Some (tally_of w c outs) | Inl e \<Rightarrow> None)
         else None)) \<and>
     (\<forall>c \<in> category ` set outs. \<exists>w. category_weight cfg c = Inr w)"

subsection \<open>The score formula and the weighted mean, as the specification words them\<close>

definition category_score :: "CategoryResult \<Rightarrow> real" where
  "category_score r =
     ((real (checks_passed r) + 0.5 * real (checks_warned r)) / real (total_checks r)) * 100"

definition scored :: "CategoryResult \<Rightarrow> CategoryResult" where
  "scored r = (if total_checks r > 0 then r\<lparr>score := category_score r\<rparr> else r)"

definition included :: "results_dict \<Rightarrow> CategoryResult list" where
  "included st = filter (\<lambda>r. total_checks r > 0) (map snd st)"

text \<open>
  The overall score in the specification's words: the weighted mean over the included
  categories, and 0 when the weights sum to 0.
\<close>

definition spec_overall :: "results_dict \<Rightarrow> real" where
  "spec_overall cats =
     (if (\<Sum>r\<leftarrow>included cats. weight r) = 0 then 0
      else (\<Sum>r\<leftarrow>included cats. score r * real_of_int (weight r))
             / real_of_int (\<Sum>r\<leftarrow>included cats. weight r))"

subsection \<open>Concrete outcomes and configurations\<close>

definition outcome :: "string \<Rightarrow> string \<Rightarrow> bool \<Rightarrow> string \<Rightarrow> ValidationResult" where
  "outcome c n p s =
     \<lparr>category = c, check_name = n, passed = p, severity = s, message = [], details = None\<rparr>"

definition standard_bands :: "(string \<times> grade_config) list" where
  "standard_bands =
     [(''A'', \<lparr>min_percent = 95, description = ''Excellent''\<rparr>),
      (''B'', \<lparr>min_percent = 80, description = ''Good''\<rparr>),
      (''C'', \<lparr>min_percent = 60, description = ''Fair''\<rparr>)]"

definition off_tool :: tool_config where
  "off_tool = \<lparr>tool_required = False, config_file = []\<rparr>"

text \<open>A configuration with every evaluator switched off and no weight entry at all.\<close>

definition quiet_config :: Config where
  "quiet_config =
     \<lparr>validation_categories = Some (Table Map.empty),
      compliance_grading = standard_bands,
      hooks = \<lparr>hooks_enabled = False, pre_commit_commands = [], pre_push_commands = []\<rparr>,
      documentation =
        \<lparr>documentation_enabled = False, required_claude_sections = [], wip_directory = ''docs/wip'',
         guides_directory = ''docs/guides'', architecture_directory = ''docs/architecture'',
         allowed_root_files = [''README.md'', ''CLAUDE.md'']\<rparr>,
      testing =
        \<lparr>testing_enabled = False,
         vitest = \<lparr>vitest_required = False, vitest_config_file = ''vitest.config.ts'',
                   required_scripts = []\<rparr>,
         playwright = \<lparr>required_for_web = False, playwright_config_file = ''playwright.config.ts''\<rparr>\<rparr>,
      quality_gates =
        \<lparr>quality_gates_enabled = False, eslint = off_tool, typescript = off_tool,
         prettier = off_tool,
         quality_script = \<lparr>quality_script_required = False, quality_script_name = ''quality''\<rparr>\<rparr>,
      git = \<lparr>git_enabled = False, must_include = []\<rparr>,
      security = \<lparr>security_enabled = False, example_file_name = ''.env.local.example''\<rparr>,
      naming_conventions = \<lparr>naming_enabled = False, forbidden_suffixes = []\<rparr>,
      migrations = \<lparr>enabled_for_supabase = False\<rparr>\<rparr>"

text \<open>An empty project: nothing exists, every listing is empty.\<close>

definition empty_project :: Snapshot where
  "empty_project =
     \<lparr>node_at = (\<lambda>p. None), root_listing = [],
      descendants = (\<lambda>d. []), children = (\<lambda>d. [])\<rparr>"

text \<open>Six outcomes of one category: three passed, two warned, one failed.\<close>

definition six_outcomes :: "ValidationResult list" where
  "six_outcomes =
     [outcome ''git'' ''a'' True ''critical'', outcome ''git'' ''b'' True ''warning'',
      outcome ''git'' ''c'' True ''info'', outcome ''git'' ''d'' False ''warning'',
      outcome ''git'' ''e'' False ''info'', outcome ''git'' ''f'' False ''critical'']"

text \<open>A configuration whose only weight is negative, and the state one passed check leaves.\<close>

definition negative_weight_config :: Config where
  "negative_weight_config =
     quiet_config\<lparr>validation_categories := Some (Table [''git'' \<mapsto> Object [''weight'' \<mapsto> - 10]])\<rparr>"

definition negative_weight_state :: results_dict where
  "negative_weight_state =
     [(''git'', \<lparr>name = ''git'', weight = - 10, checks_passed = 1, checks_failed = 0,
                checks_warned = 0, score = 0,
                results = [outcome ''git'' ''gitignore_exists'' True ''critical'']\<rparr>)]"

text \<open>
  A category without weight entry in the object \<open>vc\<close> under
  \<^verbatim>\<open>validation_categories\<close>: no entry for the category, or an object without the key
  \<^verbatim>\<open>weight\<close>.
\<close>

definition weight_missing :: "(string \<rightharpoonup> category_entry) \<Rightarrow> string \<Rightarrow> bool" where
  "weight_missing vc c =
     (case vc c of
        None \<Rightarrow> True
      | Some (Object entry) \<Rightarrow> entry ''weight'' = None
      | Some NotObject \<Rightarrow> False)"

text \<open>Only the hooks evaluator switched on, still without any weight entry.\<close>

definition hooks_only_config :: Config where
  "hooks_only_config =
     quiet_config\<lparr>hooks := \<lparr>hooks_enabled = True, pre_commit_commands = [], pre_push_commands = []\<rparr>\<rparr>"

subsection \<open>What the evaluators record\<close>

text \<open>
  An evaluator run is a sequence of recorded outcomes, possibly ended by an exception;
  \<open>replay\<close> records such a sequence, and \<open>emits P cfg F\<close> says that \<open>F\<close> is the
  replay of one sequence of outcomes that satisfy \<open>P\<close>, the same sequence whatever
  \<^verbatim>\<open>validation_categories\<close> holds, ended if at all by an exception that is not one
  of line 68.
\<close>

definition replay ::
  "Config \<Rightarrow> ValidationResult list \<Rightarrow> error option \<Rightarrow> results_dict \<Rightarrow> error + results_dict" where
  "replay cfg outs err st =
     and_then (record_all cfg outs st) (\<lambda>st'. case err of None \<Rightarrow> Inr st' | Some e \<Rightarrow> Inl e)"

text \<open>The exceptions of line 68: the configuration cannot be read as the code reads it.\<close>

fun config_error :: "error \<Rightarrow> bool" where
  "config_error (KeyError k) = True"
| "config_error (AttributeError k) = True"
| "config_error (TypeError k) = False"
| "config_error (PermissionError k) = False"
| "config_error (UnicodeDecodeError k) = False"
| "config_error (IsADirectoryError k) = False"

definition emits ::
  "(ValidationResult \<Rightarrow> bool) \<Rightarrow> Config
     \<Rightarrow> (categories_table option \<Rightarrow> results_dict \<Rightarrow> error + results_dict)
     \<Rightarrow> bool" where
  "emits P cfg F \<longleftrightarrow>
     (\<exists>outs err. list_all P outs
        \<and> (case err of None \<Rightarrow> True | Some e \<Rightarrow> \<not> config_error e)
        \<and> (\<forall>vc st. F vc st = replay (cfg\<lparr>validation_categories := vc\<rparr>) outs err st))"

text \<open>The severity each evaluator writes next to a check name.\<close>

definition expected_severity :: "string \<Rightarrow> string \<Rightarrow> string" where
  "expected_severity c n =
     (if c = ''hooks'' then
        (if n = ''lefthook_config_exists'' then ''critical'' else ''warning'')
      else if c = ''documentation'' then
        (if n = ''claude_md_exists'' \<or> n = ''no_forbidden_root_md'' then ''critical''
         else if n = ''wip_directory_exists'' then ''info'' else ''warning'')
      else if c = ''testing'' then
        (if n = ''vitest_config_exists'' then ''critical''
         else if n = ''playwright_config_exists'' then ''info'' else ''warning'')
      else if c = ''quality_gates'' then
        (if n = ''eslint_config_exists'' \<or> n = ''typescript_config_exists'' then ''critical''
         else ''warning'')
      else if c = ''git'' then
        (if n = ''gitignore_exists'' then ''critical'' else ''info'')
      else if c = ''security'' then
        (if n = ''env_example_exists'' then ''warning'' else ''critical'')
      else ''critical'')"

text \<open>
  An outcome of the secret scan: it names a file the scan read, whose content (undecodable
  bytes dropped) holds one of the dangerous patterns.
\<close>

definition secret_finding :: "Snapshot \<Rightarrow> ValidationResult \<Rightarrow> bool" where
  "secret_finding snap r \<longleftrightarrow>
     check_name r = ''no_hardcoded_secrets'' \<and> \<not> passed r \<and>
     (\<exists>d \<in> set security_source_dirs. \<exists>e \<in> set (scanned_files snap d).
        details r = Some (''Found in '' @ rel_path e)
        \<and> (\<exists>content. read_text_ignore (rel_path e) (node e) = Inr content
              \<and> (\<exists>p \<in> set dangerous_patterns. str_in (fst p) content)))"

text \<open>The flag that switches the evaluator of a category on.\<close>

definition category_enabled :: "Config \<Rightarrow> string \<Rightarrow> bool" where
  "category_enabled cfg c =
     (if c = ''hooks'' then hooks_enabled (hooks cfg)
      else if c = ''documentation'' then documentation_enabled (documentation cfg)
      else if c = ''testing'' then testing_enabled (testing cfg)
      else if c = ''quality_gates'' then quality_gates_enabled (quality_gates cfg)
      else if c = ''git'' then git_enabled (git cfg)
      else if c = ''security'' then security_enabled (security cfg)
      else if c = ''naming_conventions'' then naming_enabled (naming_conventions cfg)
      else if c = ''migrations'' then enabled_for_supabase (migrations cfg)
      else False)"

definition run_outcome :: "Config \<Rightarrow> Snapshot \<Rightarrow> ValidationResult \<Rightarrow> bool" where
  "run_outcome cfg snap r \<longleftrightarrow>
     category_enabled cfg (category r)
     \<and> severity r = expected_severity (category r) (check_name r)
     \<and> (category r = ''security'' \<longrightarrow>
          check_name r = ''env_example_exists'' \<or> secret_finding snap r)
     \<and> (check_name r = ''no_hardcoded_secrets'' \<longrightarrow> category r = ''security'')"

subsection \<open>What the secret scan records\<close>

text \<open>
  Every file the scan reads, in order; whether a file holds a dangerous pattern; and the
  outcome the scan records for a file that does.
\<close>

definition all_scanned :: "Snapshot \<Rightarrow> fs_entry list" where
  "all_scanned snap = concat (map (scanned_files snap) security_source_dirs)"

definition holds_secret :: "fs_entry \<Rightarrow> bool" where
  "holds_secret e =
     (case read_text_ignore (rel_path e) (node e) of
        Inl err \<Rightarrow> False
      | Inr content \<Rightarrow> list_ex (\<lambda>p. str_in (fst p) content) dangerous_patterns)"

definition readable :: "fs_entry \<Rightarrow> bool" where
  "readable e = (case read_text_ignore (rel_path e) (node e) of Inl err \<Rightarrow> False | Inr content \<Rightarrow> True)"

definition secret_outcomes :: "fs_entry \<Rightarrow> ValidationResult list" where
  "secret_outcomes e =
     (case read_text_ignore (rel_path e) (node e) of
        Inl err \<Rightarrow> []
      | Inr content \<Rightarrow>
          (case find (\<lambda>p. str_in (fst p) content) dangerous_patterns of
             None \<Rightarrow> []
           | Some p \<Rightarrow>
               [\<lparr>category = ''security'', check_name = ''no_hardcoded_secrets'',
                 passed = False, severity = ''critical'',
                 message = ''Potential '' @ snd p @ '' hardcoded'',
                 details = Some (''Found in '' @ rel_path e)\<rparr>]))"

text \<open>Projections of the result of a run, for stating concrete runs.\<close>

definition report_check_names :: "error + ValidationReport \<Rightarrow> (string \<times> string list) list" where
  "report_check_names res =
     (case res of
        Inl err \<Rightarrow> []
      | Inr report \<Rightarrow> map (\<lambda>(c, cat). (c, map check_name (results cat))) (categories report))"


subsection \<open>Concrete projects\<close>

definition security_only_config :: Config where
  "security_only_config =
     quiet_config\<lparr>security := \<lparr>security_enabled = True, example_file_name = ''.env.local.example''\<rparr>\<rparr>"

definition secret_text :: file_data where
  "secret_text = Text ''const key = sk_live_51H8abc;''"

text \<open>Two files below \<^verbatim>\<open>src\<close> that the scan's pattern matches, each with a live key.\<close>

definition two_secrets_project :: Snapshot where
  "two_secrets_project =
     \<lparr>node_at =
        [''src'' \<mapsto> Directory,
         ''src/a.{ts,tsx,js,jsx}'' \<mapsto> RegularFile secret_text,
         ''src/b.{ts,tsx,js,jsx}'' \<mapsto> RegularFile secret_text],
      root_listing = [''src''],
      descendants =
        (\<lambda>d. if d = ''src''
             then [\<lparr>rel_path = ''src/a.{ts,tsx,js,jsx}'', node = RegularFile secret_text\<rparr>,
                   \<lparr>rel_path = ''src/b.{ts,tsx,js,jsx}'', node = RegularFile secret_text\<rparr>]
             else []),
      children =
        (\<lambda>d. if d = ''src''
             then [\<lparr>rel_path = ''src/a.{ts,tsx,js,jsx}'', node = RegularFile secret_text\<rparr>,
                   \<lparr>rel_path = ''src/b.{ts,tsx,js,jsx}'', node = RegularFile secret_text\<rparr>]
             else [])\<rparr>"

text \<open>One such file in each of \<^verbatim>\<open>app\<close> and \<^verbatim>\<open>lib\<close>.\<close>

definition two_dirs_project :: Snapshot where
  "two_dirs_project =
     \<lparr>node_at =
        [''app'' \<mapsto> Directory, ''lib'' \<mapsto> Directory,
         ''app/keys.{ts,tsx,js,jsx}'' \<mapsto> RegularFile secret_text,
         ''lib/keys.{ts,tsx,js,jsx}'' \<mapsto> RegularFile secret_text],
      root_listing = [''app'', ''lib''],
      descendants =
        (\<lambda>d. if d = ''app''
             then [\<lparr>rel_path = ''app/keys.{ts,tsx,js,jsx}'', node = RegularFile secret_text\<rparr>]
             else if d = ''lib''
             then [\<lparr>rel_path = ''lib/keys.{ts,tsx,js,jsx}'', node = RegularFile secret_text\<rparr>]
             else []),
      children =
        (\<lambda>d. if d = ''app''
             then [\<lparr>rel_path = ''app/keys.{ts,tsx,js,jsx}'', node = RegularFile secret_text\<rparr>]
             else if d = ''lib''
             then [\<lparr>rel_path = ''lib/keys.{ts,tsx,js,jsx}'', node = RegularFile secret_text\<rparr>]
             else [])\<rparr>"

text \<open>An ordinary TypeScript file with a live key in it.\<close>

definition ordinary_ts_project :: Snapshot where
  "ordinary_ts_project =
     \<lparr>node_at = [''src'' \<mapsto> Directory, ''src/config.ts'' \<mapsto> RegularFile secret_text],
      root_listing = [''src''],
      descendants =
        (\<lambda>d. if d = ''src''
             then [\<lparr>rel_path = ''src/config.ts'', node = RegularFile secret_text\<rparr>]
             else []),
      children =
        (\<lambda>d. if d = ''src''
             then [\<lparr>rel_path = ''src/config.ts'', node = RegularFile secret_text\<rparr>]
             else [])\<rparr>"

text \<open>A Supabase project whose one migration file does not decode.\<close>

definition migrations_only_config :: Config where
  "migrations_only_config = quiet_config\<lparr>migrations := \<lparr>enabled_for_supabase = True\<rparr>\<rparr>"

definition undecodable_migration_project :: Snapshot where
  "undecodable_migration_project =
     \<lparr>node_at =
        [''supabase/migrations'' \<mapsto> Directory,
         ''supabase/migrations/001_init.sql''
            \<mapsto> RegularFile (Undecodable ''CREATE TABLE notes (id int);'')],
      root_listing = [''supabase''],
      descendants = (\<lambda>d. []),
      children =
        (\<lambda>d. if d = ''supabase/migrations''
             then [\<lparr>rel_path = ''supabase/migrations/001_init.sql'',
                    node = RegularFile (Undecodable ''CREATE TABLE notes (id int);'')\<rparr>]
             else [])\<rparr>"

text \<open>A project whose \<^verbatim>\<open>CLAUDE.md\<close> exists and cannot be opened.\<close>

definition documentation_only_config :: Config where
  "documentation_only_config =
     quiet_config\<lparr>documentation :=
       \<lparr>documentation_enabled = True, required_claude_sections = [''Commands''],
        wip_directory = ''docs/wip'', guides_directory = ''docs/guides'',
        architecture_directory = ''docs/architecture'',
        allowed_root_files = [''README.md'', ''CLAUDE.md'']\<rparr>\<rparr>"

definition unreadable_claude_md_project :: Snapshot where
  "unreadable_claude_md_project =
     \<lparr>node_at = [''CLAUDE.md'' \<mapsto> RegularFile Unreadable],
      root_listing = [''CLAUDE.md''],
      descendants = (\<lambda>d. []),
      children = (\<lambda>d. [])\<rparr>"




text \<open>
  One file with two live keys in it (on two lines) next to a clean one, both with names the
  scan's pattern matches.
\<close>

definition one_secret_project :: Snapshot where
  "one_secret_project =
     \<lparr>node_at = [''lib'' \<mapsto> Directory],
      root_listing = [''lib''],
      descendants =
        (\<lambda>d. if d = ''lib''
             then [\<lparr>rel_path = ''lib/keys.{ts,tsx,js,jsx}'',
                    node = RegularFile (Text (''a = sk_live_1;'' @ [CHR 0x0A] @ ''b = AKIA2;''))\<rparr>,
                   \<lparr>rel_path = ''lib/util.{ts,tsx,js,jsx}'',
                    node = RegularFile (Undecodable ''export const n = 1;'')\<rparr>]
             else []),
      children = (\<lambda>d. [])\<rparr>"


section \<open>Properties of the aggregation\<close>

subsection \<open>Scores\<close>

lemma calculate_scores_eq:
  "calculate_scores st ts tw =
     (map (\<lambda>(c, r). (c, scored r)) st,
      ts + (\<Sum>r\<leftarrow>included st. category_score r * real_of_int (weight r)),
      tw + (\<Sum>r\<leftarrow>included st. weight r))"
proof (induction st arbitrary: ts tw)
  case Nil
  show ?case by (simp add: included_def)
next
  case (Cons p st)
  obtain c r where p: "p = (c, r)" by (cases p)
  show ?case
    unfolding p
    by (simp add: Cons.IH included_def scored_def category_score_def Let_def algebra_simps)
qed

lemma scored_total [simp]: "total_checks (scored r) = total_checks r"
  by (simp add: scored_def total_checks_def)

lemma scored_fields [simp]:
  "checks_passed (scored r) = checks_passed r"
  "checks_failed (scored r) = checks_failed r"
  "checks_warned (scored r) = checks_warned r"
  "weight (scored r) = weight r"
  "name (scored r) = name r"
  "results (scored r) = results r"
  by (simp_all add: scored_def)

lemma scored_score:
  "score (scored r) = (if total_checks r > 0 then category_score r else score r)"
  by (simp add: scored_def)

lemma categories_score_results:
  "categories (score_results cfg st) = map (\<lambda>(c, r). (c, scored r)) st"
  by (simp add: score_results_def calculate_scores_eq Let_def)

lemma map_of_categories:
  "map_of (categories (score_results cfg st)) c = map_option scored (map_of st c)"
  unfolding categories_score_results by (induction st) auto

lemma overall_score_results:
  "overall_score (score_results cfg st) =
     (if (\<Sum>r\<leftarrow>included st. weight r) > 0
      then (\<Sum>r\<leftarrow>included st. category_score r * real_of_int (weight r))
             / real_of_int (\<Sum>r\<leftarrow>included st. weight r)
      else 0)"
  by (simp add: score_results_def calculate_scores_eq Let_def)

lemma included_scored:
  "included (map (\<lambda>(c, r). (c, scored r)) st) = map scored (included st)"
  by (induction st) (auto simp: included_def)

lemma sum_scored_weight:
  "(\<Sum>r\<leftarrow>map scored (included st). weight r) = (\<Sum>r\<leftarrow>included st. weight r)"
  by (simp add: comp_def)

lemma sum_scored_score:
  "(\<Sum>r\<leftarrow>map scored (included st). score r * real_of_int (weight r))
     = (\<Sum>r\<leftarrow>included st. category_score r * real_of_int (weight r))"
proof -
  have "\<And>r. r \<in> set (included st) \<Longrightarrow> score (scored r) = category_score r"
    by (auto simp: included_def scored_score)
  then have "map (\<lambda>r. score (scored r) * real_of_int (weight r)) (included st)
           = map (\<lambda>r. category_score r * real_of_int (weight r)) (included st)"
    by (intro map_cong) auto
  then have "sum_list (map (\<lambda>r. score (scored r) * real_of_int (weight r)) (included st))
           = sum_list (map (\<lambda>r. category_score r * real_of_int (weight r)) (included st))"
    by (rule arg_cong)
  then show ?thesis by (simp only: map_map comp_def scored_fields)
qed

subsection \<open>Recording\<close>

lemma tally_new:
  "tally r (new_CategoryResult (category r) w) = tally_of w (category r) [r]"
  by (simp add: tally_def new_CategoryResult_def tally_of_def n_passed_def n_failed_def
      n_warned_def Let_def)

lemma tally_snoc_same:
  "tally r (tally_of w (category r) outs) = tally_of w (category r) (outs @ [r])"
  by (simp add: tally_def tally_of_def n_passed_def n_failed_def n_warned_def Let_def)

lemma tally_of_snoc_other:
  "category r \<noteq> c \<Longrightarrow> tally_of w c (outs @ [r]) = tally_of w c outs"
  by (simp add: tally_of_def n_passed_def n_failed_def n_warned_def)

lemma tally_of_absent:
  assumes "category r \<notin> category ` set outs"
  shows "tally_of w (category r) (outs @ [r]) = tally_of w (category r) [r]"
proof -
  from assms have ne: "\<forall>x \<in> set outs. category x \<noteq> category r" by (metis imageI)
  then have "\<And>P. filter (\<lambda>x. category x = category r \<and> P x) outs = []"
    by (simp add: filter_empty_conv)
  moreover from ne have "filter (\<lambda>x. category x = category r) outs = []"
    by (simp add: filter_empty_conv)
  ultimately show ?thesis
    by (simp add: tally_of_def n_passed_def n_failed_def n_warned_def)
qed

lemma add_result_tallied:
  assumes "tallied cfg outs st" and "add_result cfg r st = Inr st'"
  shows "tallied cfg (outs @ [r]) st'"
proof (cases "map_of st (category r)")
  case None
  with assms(2) obtain w where w: "category_weight cfg (category r) = Inr w"
    and st': "st' = AList.update (category r) (tally r (new_CategoryResult (category r) w)) st"
    by (auto simp: add_result_def split: sum.splits)
  from None assms(1) have notin: "category r \<notin> category ` set outs"
    by (auto simp: tallied_def split: if_splits sum.splits)
  show ?thesis
    using assms(1) w notin
    unfolding tallied_def st'
    by (auto simp: update_conv' distinct_update tally_new tally_of_absent tally_of_snoc_other
        split: sum.splits)
next
  case (Some cat)
  with assms(2) have st': "st' = AList.update (category r) (tally r cat) st"
    by (auto simp: add_result_def)
  from Some assms(1) obtain w where w: "category_weight cfg (category r) = Inr w"
    and cat: "cat = tally_of w (category r) outs" and "category r \<in> category ` set outs"
    by (auto simp: tallied_def split: if_splits sum.splits)
  show ?thesis
    using assms(1) w
    unfolding tallied_def st' cat
    by (auto simp: update_conv' distinct_update tally_snoc_same tally_of_snoc_other
        split: sum.splits)
qed

lemma record_all_tallied:
  "tallied cfg seen st \<Longrightarrow> record_all cfg outs st = Inr st' \<Longrightarrow> tallied cfg (seen @ outs) st'"
proof (induction outs arbitrary: seen st)
  case Nil
  then show ?case by simp
next
  case (Cons r outs)
  from Cons.prems(2) obtain st1 where 1: "add_result cfg r st = Inr st1"
    and 2: "record_all cfg outs st1 = Inr st'"
    by (auto split: sum.splits)
  from add_result_tallied [OF Cons.prems(1) 1] have "tallied cfg (seen @ [r]) st1" .
  from Cons.IH [OF this 2] show ?case by simp
qed

lemma tallied_empty: "tallied cfg [] []"
  by (simp add: tallied_def)

lemma record_all_from_empty:
  "record_all cfg outs [] = Inr st \<Longrightarrow> tallied cfg outs st"
  using record_all_tallied [OF tallied_empty] by fastforce

lemma tallied_lookup:
  assumes "tallied cfg outs st" and "c \<in> category ` set outs"
  shows "\<exists>w. category_weight cfg c = Inr w \<and> map_of st c = Some (tally_of w c outs)"
  using assms by (auto simp: tallied_def split: sum.splits)

lemma tallied_absent:
  "tallied cfg outs st \<Longrightarrow> c \<notin> category ` set outs \<Longrightarrow> map_of st c = None"
  by (simp add: tallied_def)

lemma count_partition:
  "n_passed c outs + n_failed c outs + n_warned c outs
     = length (filter (\<lambda>r. category r = c) outs)"
  by (induction outs) (auto simp: n_passed_def n_failed_def n_warned_def)

lemma total_checks_tally_of:
  "total_checks (tally_of w c outs) = length (filter (\<lambda>r. category r = c) outs)"
  by (simp add: total_checks_def tally_of_def count_partition)

lemma filter_category_nonempty:
  "c \<in> category ` set outs \<Longrightarrow> 0 < length (filter (\<lambda>r. category r = c) outs)"
  by (auto simp: filter_empty_conv)

subsection \<open>What recording depends on\<close>

lemma included_tallied:
  assumes "tallied cfg outs st"
  shows "included st = map snd st"
proof -
  have "\<And>c r. (c, r) \<in> set st \<Longrightarrow> 0 < total_checks r"
  proof -
    fix c r assume m: "(c, r) \<in> set st"
    from assms have d: "distinct (map fst st)" by (simp add: tallied_def)
    with m have lk: "map_of st c = Some r" by simp
    with assms have cin: "c \<in> category ` set outs"
      by (auto simp: tallied_def split: if_splits)
    from tallied_lookup [OF assms cin] lk obtain w where "r = tally_of w c outs" by auto
    with filter_category_nonempty [OF cin] show "0 < total_checks r"
      by (simp only: total_checks_tally_of)
  qed
  then show ?thesis by (auto simp: included_def filter_id_conv)
qed

lemma tallied_keys:
  assumes "tallied cfg outs st"
  shows "fst ` set st = category ` set outs"
proof -
  from assms have "\<And>c. (map_of st c \<noteq> None) = (c \<in> category ` set outs)"
    by (auto simp: tallied_def split: sum.splits)
  then have "dom (map_of st) = category ` set outs" by (auto simp: dom_def)
  then show ?thesis by (simp add: dom_map_of_conv_image_fst)
qed

lemma add_result_weight_cong:
  "category_weight cfg' (category r) = category_weight cfg (category r)
     \<Longrightarrow> add_result cfg' r st = add_result cfg r st"
  by (simp add: add_result_def split: option.splits)

lemma record_all_weight_cong:
  "(\<And>r. r \<in> set outs \<Longrightarrow> category_weight cfg' (category r) = category_weight cfg (category r))
     \<Longrightarrow> record_all cfg' outs st = record_all cfg outs st"
proof (induction outs arbitrary: st)
  case Nil
  show ?case by simp
next
  case (Cons r outs)
  have "add_result cfg' r st = add_result cfg r st"
    by (rule add_result_weight_cong) (simp add: Cons.prems)
  moreover have "\<And>st1. record_all cfg' outs st1 = record_all cfg outs st1"
    by (rule Cons.IH) (simp add: Cons.prems)
  ultimately show ?case by (simp split: sum.splits)
qed

lemma score_results_grading_cong:
  "compliance_grading cfg' = compliance_grading cfg \<Longrightarrow> score_results cfg' st = score_results cfg st"
  by (simp add: score_results_def)

lemma category_weight_other:
  "validation_categories cfg = Some (Table vc) \<Longrightarrow> c' \<noteq> c \<Longrightarrow>
     category_weight (cfg\<lparr>validation_categories := Some (Table (vc(c \<mapsto> entry)))\<rparr>) c'
       = category_weight cfg c'"
  by (simp add: category_weight_def)

lemma unrecorded_category_absent:
  "record_all cfg outs [] = Inr st \<and> c \<notin> category ` set outs \<longrightarrow>
     map_of (categories (score_results cfg st)) c = None
     \<and> c \<notin> fst ` set (categories (score_results cfg st))"
proof
  assume a: "record_all cfg outs [] = Inr st \<and> c \<notin> category ` set outs"
  then have t: "tallied cfg outs st" by (simp add: record_all_from_empty)
  from tallied_absent [OF t] a have "map_of st c = None" by simp
  then have n: "map_of (categories (score_results cfg st)) c = None"
    by (simp add: map_of_categories)
  then have "c \<notin> fst ` set (categories (score_results cfg st))"
    by (simp add: map_of_eq_None_iff)
  with n show "map_of (categories (score_results cfg st)) c = None
     \<and> c \<notin> fst ` set (categories (score_results cfg st))" by simp
qed

lemma unrecorded_weight_irrelevant:
  "record_all cfg outs [] = Inr st \<and> c \<notin> category ` set outs
     \<and> validation_categories cfg = Some (Table vc) \<longrightarrow>
     record_all (cfg\<lparr>validation_categories := Some (Table (vc(c \<mapsto> entry)))\<rparr>) outs [] = Inr st
     \<and> score_results (cfg\<lparr>validation_categories := Some (Table (vc(c \<mapsto> entry)))\<rparr>) st
         = score_results cfg st"
proof
  assume a: "record_all cfg outs [] = Inr st \<and> c \<notin> category ` set outs
     \<and> validation_categories cfg = Some (Table vc)"
  let ?cfg' = "cfg\<lparr>validation_categories := Some (Table (vc(c \<mapsto> entry)))\<rparr>"
  have "record_all ?cfg' outs [] = record_all cfg outs []"
  proof (rule record_all_weight_cong)
    fix r assume "r \<in> set outs"
    with a have "category r \<noteq> c" by auto
    with a show "category_weight ?cfg' (category r) = category_weight cfg (category r)"
      by (simp add: category_weight_other)
  qed
  moreover have "score_results ?cfg' st = score_results cfg st"
    by (rule score_results_grading_cong) simp
  ultimately show "record_all ?cfg' outs [] = Inr st \<and> score_results ?cfg' st = score_results cfg st"
    using a by simp
qed

lemma included_append: "included (xs @ ys) = included xs @ included ys"
  by (simp add: included_def)

lemma empty_category_skipped:
  "total_checks r = 0 \<longrightarrow>
     overall_score (score_results cfg (st1 @ (c, r) # st2))
       = overall_score (score_results cfg (st1 @ st2))
     \<and> overall_score (score_results cfg (st1 @ (c, r\<lparr>weight := w'\<rparr>) # st2))
       = overall_score (score_results cfg (st1 @ (c, r) # st2))"
proof
  assume z: "total_checks r = 0"
  then have z': "total_checks (r\<lparr>weight := w'\<rparr>) = 0" by (simp add: total_checks_def)
  have 1: "included (st1 @ (c, r) # st2) = included (st1 @ st2)"
    using z by (simp add: included_def)
  have 2: "included (st1 @ (c, r\<lparr>weight := w'\<rparr>) # st2) = included (st1 @ st2)"
    using z' by (simp add: included_def)
  show "overall_score (score_results cfg (st1 @ (c, r) # st2))
       = overall_score (score_results cfg (st1 @ st2))
     \<and> overall_score (score_results cfg (st1 @ (c, r\<lparr>weight := w'\<rparr>) # st2))
       = overall_score (score_results cfg (st1 @ (c, r) # st2))"
    unfolding overall_score_results 1 2 by simp
qed

section \<open>Properties of a whole run\<close>

subsection \<open>Every evaluator replays a sequence of outcomes\<close>

lemma record_all_append:
  "record_all cfg (xs @ ys) st = and_then (record_all cfg xs st) (record_all cfg ys)"
  by (induction xs arbitrary: st) (auto simp: and_then_def split: sum.splits)

lemma emitsI:
  "list_all P outs \<Longrightarrow> (case err of None \<Rightarrow> True | Some e \<Rightarrow> \<not> config_error e)
     \<Longrightarrow> (\<And>vc st. F vc st = replay (cfg\<lparr>validation_categories := vc\<rparr>) outs err st)
     \<Longrightarrow> emits P cfg F"
  unfolding emits_def by blast

lemma emits_skip: "emits P cfg (\<lambda>vc st. Inr st)"
  by (rule emitsI [where outs = "[]" and err = None]) (simp_all add: replay_def and_then_def)

lemma emits_raise: "\<not> config_error e \<Longrightarrow> emits P cfg (\<lambda>vc st. Inl e)"
  by (rule emitsI [where outs = "[]" and err = "Some e"]) (simp_all add: replay_def and_then_def)

lemma emits_add:
  "P r \<Longrightarrow> emits P cfg (\<lambda>vc st. add_result (cfg\<lparr>validation_categories := vc\<rparr>) r st)"
  by (rule emitsI [where outs = "[r]" and err = None])
     (simp_all add: replay_def and_then_def split: sum.splits)

lemma emits_seq:
  assumes "emits P cfg F" and "emits P cfg G"
  shows "emits P cfg (\<lambda>vc st. and_then (F vc st) (G vc))"
proof -
  from assms(1) obtain o1 e1 where 1: "list_all P o1"
    "case e1 of None \<Rightarrow> True | Some e \<Rightarrow> \<not> config_error e"
    "\<And>vc st. F vc st = replay (cfg\<lparr>validation_categories := vc\<rparr>) o1 e1 st"
    unfolding emits_def by blast
  from assms(2) obtain o2 e2 where 2: "list_all P o2"
    "case e2 of None \<Rightarrow> True | Some e \<Rightarrow> \<not> config_error e"
    "\<And>vc st. G vc st = replay (cfg\<lparr>validation_categories := vc\<rparr>) o2 e2 st"
    unfolding emits_def by blast
  show ?thesis
  proof (cases e1)
    case None
    show ?thesis
    proof (rule emitsI [where outs = "o1 @ o2" and err = e2])
      show "list_all P (o1 @ o2)" using 1(1) 2(1) by simp
    next
      show "case e2 of None \<Rightarrow> True | Some e \<Rightarrow> \<not> config_error e" by (rule 2(2))
    next
      fix vc st
      show "and_then (F vc st) (G vc) = replay (cfg\<lparr>validation_categories := vc\<rparr>) (o1 @ o2) e2 st"
        unfolding 1(3) 2(3) [abs_def] None
        by (simp add: replay_def record_all_append and_then_def split: sum.splits)
    qed
  next
    case (Some e)
    show ?thesis
    proof (rule emitsI [where outs = o1 and err = e1])
      show "list_all P o1" by (rule 1(1))
    next
      show "case e1 of None \<Rightarrow> True | Some e \<Rightarrow> \<not> config_error e" by (rule 1(2))
    next
      fix vc st
      show "and_then (F vc st) (G vc) = replay (cfg\<lparr>validation_categories := vc\<rparr>) o1 e1 st"
        unfolding 1(3) Some
        by (simp add: replay_def and_then_def split: sum.splits)
    qed
  qed
qed

lemma emits_for_each:
  assumes "\<And>x. x \<in> set xs \<Longrightarrow> emits P cfg (B x)"
  shows "emits P cfg (\<lambda>vc st. for_each xs (\<lambda>x. B x vc) st)"
  using assms
proof (induction xs)
  case Nil
  show ?case by (simp add: emits_skip)
next
  case (Cons x xs)
  have 1: "emits P cfg (B x)" by (rule Cons.prems) simp
  have 2: "emits P cfg (\<lambda>vc st. for_each xs (\<lambda>x. B x vc) st)"
    by (rule Cons.IH) (simp add: Cons.prems)
  from emits_seq [OF 1 2] show ?case by simp
qed

lemma emits_if:
  "(b \<Longrightarrow> emits P cfg F) \<Longrightarrow> (\<not> b \<Longrightarrow> emits P cfg G)
     \<Longrightarrow> emits P cfg (\<lambda>vc st. if b then F vc st else G vc st)"
  by (cases b) simp_all

lemma emits_case_option:
  "(x = None \<Longrightarrow> emits P cfg F) \<Longrightarrow> (\<And>y. x = Some y \<Longrightarrow> emits P cfg (G y))
     \<Longrightarrow> emits P cfg (\<lambda>vc st. case x of None \<Rightarrow> F vc st | Some y \<Rightarrow> G y vc st)"
  by (cases x) simp_all

lemma emits_case_sum:
  "(\<And>e. x = Inl e \<Longrightarrow> emits P cfg (F e)) \<Longrightarrow> (\<And>y. x = Inr y \<Longrightarrow> emits P cfg (G y))
     \<Longrightarrow> emits P cfg (\<lambda>vc st. case x of Inl e \<Rightarrow> F e vc st | Inr y \<Rightarrow> G y vc st)"
  by (cases x) simp_all

lemma emits_mono:
  "emits P cfg F \<Longrightarrow> (\<And>r. P r \<Longrightarrow> Q r) \<Longrightarrow> emits Q cfg F"
  unfolding emits_def list_all_iff by blast

lemma read_text_error: "read_text p n = Inl e \<Longrightarrow> \<not> config_error e"
  by (cases "(p, n)" rule: read_text.cases) auto

lemma read_text_ignore_error: "read_text_ignore p n = Inl e \<Longrightarrow> \<not> config_error e"
  by (cases "(p, n)" rule: read_text_ignore.cases) auto

lemma scan_migrations_error: "scan_migrations fs acc = Inl e \<Longrightarrow> \<not> config_error e"
proof (induction fs arbitrary: acc)
  case Nil
  then show ?case by simp
next
  case (Cons f fs)
  show ?case
  proof (cases "read_text (rel_path f) (node f)")
    case (Inl err)
    with Cons.prems have "err = e" by simp
    with Inl show ?thesis by (simp add: read_text_error)
  next
    case (Inr content)
    with Cons.prems Cons.IH show ?thesis by (simp add: Let_def split: if_splits)
  qed
qed

lemmas emits_rules =
  emits_skip emits_raise emits_seq emits_for_each emits_if emits_case_option emits_case_sum

lemma other_sections:
  "compliance_grading (cfg\<lparr>validation_categories := vc\<rparr>) = compliance_grading cfg"
  "hooks (cfg\<lparr>validation_categories := vc\<rparr>) = hooks cfg"
  "documentation (cfg\<lparr>validation_categories := vc\<rparr>) = documentation cfg"
  "testing (cfg\<lparr>validation_categories := vc\<rparr>) = testing cfg"
  "quality_gates (cfg\<lparr>validation_categories := vc\<rparr>) = quality_gates cfg"
  "git (cfg\<lparr>validation_categories := vc\<rparr>) = git cfg"
  "security (cfg\<lparr>validation_categories := vc\<rparr>) = security cfg"
  "naming_conventions (cfg\<lparr>validation_categories := vc\<rparr>) = naming_conventions cfg"
  "migrations (cfg\<lparr>validation_categories := vc\<rparr>) = migrations cfg"
  by simp_all

lemma hooks_emits:
  "emits (run_outcome cfg snap) cfg (\<lambda>vc. validate_hooks (cfg\<lparr>validation_categories := vc\<rparr>) snap)"
  unfolding validate_hooks_def Let_def
  apply (simp only: other_sections)
  apply (intro emits_rules emits_add)
  apply (simp_all add: run_outcome_def category_enabled_def expected_severity_def)
  done

lemma documentation_emits:
  "emits (run_outcome cfg snap) cfg
     (\<lambda>vc. validate_documentation (cfg\<lparr>validation_categories := vc\<rparr>) snap)"
  unfolding validate_documentation_def Let_def
  apply (simp only: other_sections)
  apply (intro emits_rules emits_add)
  apply (simp_all add: run_outcome_def category_enabled_def expected_severity_def)
  done

lemma testing_emits:
  "emits (run_outcome cfg snap) cfg (\<lambda>vc. validate_testing (cfg\<lparr>validation_categories := vc\<rparr>) snap)"
  unfolding validate_testing_def Let_def
  apply (simp only: other_sections)
  apply (intro emits_rules emits_add)
  apply (simp_all add: run_outcome_def category_enabled_def expected_severity_def)
  done

lemma quality_gates_emits:
  "emits (run_outcome cfg snap) cfg
     (\<lambda>vc. validate_quality_gates (cfg\<lparr>validation_categories := vc\<rparr>) snap)"
  unfolding validate_quality_gates_def Let_def
  apply (simp only: other_sections)
  apply (intro emits_rules emits_add)
  apply (simp_all add: run_outcome_def category_enabled_def expected_severity_def)
  done

lemma git_emits:
  "emits (run_outcome cfg snap) cfg (\<lambda>vc. validate_git (cfg\<lparr>validation_categories := vc\<rparr>) snap)"
  unfolding validate_git_def Let_def
  apply (simp only: other_sections)
  apply (intro emits_rules emits_add)
  apply (simp_all add: run_outcome_def category_enabled_def expected_severity_def)
  done

lemma naming_emits:
  "emits (run_outcome cfg snap) cfg
     (\<lambda>vc. validate_naming_conventions (cfg\<lparr>validation_categories := vc\<rparr>) snap)"
  unfolding validate_naming_conventions_def files_with_suffixes_def Let_def
  apply (simp only: other_sections)
  apply (intro emits_rules emits_add)
  apply (simp_all add: run_outcome_def category_enabled_def expected_severity_def)
  done

lemma migrations_emits:
  "emits (run_outcome cfg snap) cfg
     (\<lambda>vc. validate_migrations (cfg\<lparr>validation_categories := vc\<rparr>) snap)"
  unfolding validate_migrations_def Let_def
  apply (simp only: other_sections)
  apply (intro emits_rules emits_add)
  apply (simp_all add: run_outcome_def category_enabled_def expected_severity_def scan_migrations_error)
  done


lemma scan_patterns_emits:
  assumes "\<And>pattern pname. (pattern, pname) \<in> set pats \<Longrightarrow> str_in pattern content \<Longrightarrow>
     P \<lparr>category = ''security'', check_name = ''no_hardcoded_secrets'',
        passed = False, severity = ''critical'',
        message = ''Potential '' @ pname @ '' hardcoded'',
        details = Some (''Found in '' @ path)\<rparr>"
  shows "emits P cfg (\<lambda>vc. scan_patterns (cfg\<lparr>validation_categories := vc\<rparr>) path content pats)"
  using assms
proof (induction pats)
  case Nil
  have "(\<lambda>vc. scan_patterns (cfg\<lparr>validation_categories := vc\<rparr>) path content [])
      = (\<lambda>vc st. Inr st)" by (intro ext) simp
  then show ?case by (simp only: emits_skip)
next
  case (Cons p pats)
  obtain pattern pname where p: "p = (pattern, pname)" by (cases p)
  show ?case
  proof (cases "str_in pattern content")
    case True
    have "(\<lambda>vc. scan_patterns (cfg\<lparr>validation_categories := vc\<rparr>) path content (p # pats))
      = (\<lambda>vc st. add_result (cfg\<lparr>validation_categories := vc\<rparr>)
           \<lparr>category = ''security'', check_name = ''no_hardcoded_secrets'',
            passed = False, severity = ''critical'',
            message = ''Potential '' @ pname @ '' hardcoded'',
            details = Some (''Found in '' @ path)\<rparr> st)"
      using True by (intro ext) (simp add: p)
    moreover have "P \<lparr>category = ''security'', check_name = ''no_hardcoded_secrets'',
            passed = False, severity = ''critical'',
            message = ''Potential '' @ pname @ '' hardcoded'',
            details = Some (''Found in '' @ path)\<rparr>"
      by (rule Cons.prems [of pattern pname]) (simp_all add: p True)
    ultimately show ?thesis by (simp only: emits_add)
  next
    case False
    have "(\<lambda>vc. scan_patterns (cfg\<lparr>validation_categories := vc\<rparr>) path content (p # pats))
      = (\<lambda>vc. scan_patterns (cfg\<lparr>validation_categories := vc\<rparr>) path content pats)"
      using False by (intro ext) (simp add: p)
    moreover have "emits P cfg (\<lambda>vc. scan_patterns (cfg\<lparr>validation_categories := vc\<rparr>) path content pats)"
      by (rule Cons.IH) (rule Cons.prems, simp_all)
    ultimately show ?thesis by simp
  qed
qed

lemma scan_file_emits:
  assumes "d \<in> set security_source_dirs" and "e \<in> set (scanned_files snap d)"
    and "security_enabled (security cfg)"
  shows "emits (run_outcome cfg snap) cfg (\<lambda>vc. scan_file (cfg\<lparr>validation_categories := vc\<rparr>) e)"
  unfolding scan_file_def
proof (intro emits_rules)
  fix err assume "read_text_ignore (rel_path e) (node e) = Inl err"
  then show "\<not> config_error err" by (rule read_text_ignore_error)
next
  fix content assume c: "read_text_ignore (rel_path e) (node e) = Inr content"
  show "emits (run_outcome cfg snap) cfg
          (\<lambda>vc. scan_patterns (cfg\<lparr>validation_categories := vc\<rparr>) (rel_path e) content
                   dangerous_patterns)"
  proof (rule scan_patterns_emits)
    fix pattern pname
    assume "(pattern, pname) \<in> set dangerous_patterns" and "str_in pattern content"
    then have "\<exists>p \<in> set dangerous_patterns. str_in (fst p) content" by force
    with assms c show "run_outcome cfg snap
       \<lparr>category = ''security'', check_name = ''no_hardcoded_secrets'',
        passed = False, severity = ''critical'',
        message = ''Potential '' @ pname @ '' hardcoded'',
        details = Some (''Found in '' @ rel_path e)\<rparr>"
      unfolding run_outcome_def secret_finding_def
      by (auto simp: category_enabled_def expected_severity_def)
  qed
qed

lemma security_emits:
  "emits (run_outcome cfg snap) cfg (\<lambda>vc. validate_security (cfg\<lparr>validation_categories := vc\<rparr>) snap)"
  unfolding validate_security_def Let_def
  apply (simp only: other_sections)
  apply (intro emits_rules emits_add scan_file_emits)
    apply (simp_all add: run_outcome_def category_enabled_def expected_severity_def)
  done

lemma run_validators_emits:
  "emits (run_outcome cfg snap) cfg
     (\<lambda>vc st. and_then (validate_hooks (cfg\<lparr>validation_categories := vc\<rparr>) snap st)
       (\<lambda>st. and_then (validate_documentation (cfg\<lparr>validation_categories := vc\<rparr>) snap st)
       (\<lambda>st. and_then (validate_testing (cfg\<lparr>validation_categories := vc\<rparr>) snap st)
       (\<lambda>st. and_then (validate_quality_gates (cfg\<lparr>validation_categories := vc\<rparr>) snap st)
       (\<lambda>st. and_then (validate_git (cfg\<lparr>validation_categories := vc\<rparr>) snap st)
       (\<lambda>st. and_then (validate_security (cfg\<lparr>validation_categories := vc\<rparr>) snap st)
       (\<lambda>st. and_then (validate_naming_conventions (cfg\<lparr>validation_categories := vc\<rparr>) snap st)
       (\<lambda>st. validate_migrations (cfg\<lparr>validation_categories := vc\<rparr>) snap st))))))))"
  by (intro emits_seq hooks_emits documentation_emits testing_emits quality_gates_emits git_emits
      security_emits naming_emits migrations_emits)

lemma run_validators_replay:
  "\<exists>outs err. list_all (run_outcome cfg snap) outs
     \<and> (case err of None \<Rightarrow> True | Some e \<Rightarrow> \<not> config_error e)
     \<and> (\<forall>vc. run_validators (cfg\<lparr>validation_categories := vc\<rparr>) snap
              = replay (cfg\<lparr>validation_categories := vc\<rparr>) outs err [])"
  using run_validators_emits [of cfg snap]
  unfolding emits_def run_validators_def by blast

subsection \<open>The report of a run\<close>

lemma replay_Inr:
  "replay cfg outs err st = Inr st' \<longleftrightarrow> record_all cfg outs st = Inr st' \<and> err = None"
  by (auto simp: replay_def and_then_def split: sum.splits option.splits)

lemma same_config: "cfg\<lparr>validation_categories := validation_categories cfg\<rparr> = cfg"
  by simp

lemma run_validators_recorded:
  assumes "run_validators cfg snap = Inr st"
  obtains outs where "list_all (run_outcome cfg snap) outs"
    and "record_all cfg outs [] = Inr st"
    and "\<And>vc. run_validators (cfg\<lparr>validation_categories := vc\<rparr>) snap
            = record_all (cfg\<lparr>validation_categories := vc\<rparr>) outs []"
proof -
  from run_validators_replay [of cfg snap] obtain outs err where
    p: "list_all (run_outcome cfg snap) outs" and
    r: "\<And>vc. run_validators (cfg\<lparr>validation_categories := vc\<rparr>) snap
              = replay (cfg\<lparr>validation_categories := vc\<rparr>) outs err []"
    by blast
  from r [of "validation_categories cfg"] assms have "replay cfg outs err [] = Inr st"
    by (simp only: same_config)
  then have 1: "record_all cfg outs [] = Inr st" and 2: "err = None"
    by (simp_all add: replay_Inr)
  have "\<And>vc. run_validators (cfg\<lparr>validation_categories := vc\<rparr>) snap
            = record_all (cfg\<lparr>validation_categories := vc\<rparr>) outs []"
    unfolding r 2 by (simp add: replay_def and_then_def split: sum.splits)
  with p 1 show ?thesis by (rule that)
qed

lemma validate_all_Inr:
  "validate_all cfg snap = Inr report \<longleftrightarrow>
     (\<exists>st. run_validators cfg snap = Inr st \<and> report = score_results cfg st)"
  by (auto simp: validate_all_def split: sum.splits)

lemma validate_all_recorded:
  assumes "validate_all cfg snap = Inr report"
  obtains outs st where "list_all (run_outcome cfg snap) outs"
    and "record_all cfg outs [] = Inr st"
    and "report = score_results cfg st"
    and "\<And>vc. run_validators (cfg\<lparr>validation_categories := vc\<rparr>) snap
            = record_all (cfg\<lparr>validation_categories := vc\<rparr>) outs []"
proof -
  from assms obtain st where s: "run_validators cfg snap = Inr st" and r: "report = score_results cfg st"
    by (auto simp: validate_all_Inr)
  from run_validators_recorded [OF s] obtain outs where
    1: "list_all (run_outcome cfg snap) outs" and 2: "record_all cfg outs [] = Inr st" and
    3: "\<And>vc. run_validators (cfg\<lparr>validation_categories := vc\<rparr>) snap
            = record_all (cfg\<lparr>validation_categories := vc\<rparr>) outs []"
    by blast
  from 1 2 r 3 show ?thesis by (rule that)
qed

text \<open>What the report of a run holds for a category: the scored tally of its outcomes.\<close>

lemma report_entry:
  assumes "record_all cfg outs [] = Inr st"
    and "(c, cat) \<in> set (categories (score_results cfg st))"
  obtains w where "c \<in> category ` set outs" and "cat = scored (tally_of w c outs)"
proof -
  from assms(1) have t: "tallied cfg outs st" by (rule record_all_from_empty)
  from assms(2) obtain r where m: "(c, r) \<in> set st" and cat: "cat = scored r"
    by (auto simp: categories_score_results)
  from t have "distinct (map fst st)" by (simp add: tallied_def)
  with m have lk: "map_of st c = Some r" by simp
  with t have cin: "c \<in> category ` set outs"
    by (auto simp: tallied_def split: if_splits)
  from tallied_lookup [OF t cin] lk obtain w where "r = tally_of w c outs" by auto
  with cin cat show ?thesis by (auto intro: that)
qed

lemma run_report_has_checks:
  "validate_all cfg snap = Inr report \<and> (c, cat) \<in> set (categories report) \<longrightarrow>
     0 < total_checks cat \<and> results cat \<noteq> [] \<and> category_enabled cfg c
     \<and> (\<forall>r \<in> set (results cat). category r = c)
     \<and> score cat =
          ((real (checks_passed cat) + 0.5 * real (checks_warned cat))
             / real (total_checks cat)) * 100"
proof
  assume a: "validate_all cfg snap = Inr report \<and> (c, cat) \<in> set (categories report)"
  then obtain outs st where p: "list_all (run_outcome cfg snap) outs"
    and r: "record_all cfg outs [] = Inr st" and rep: "report = score_results cfg st"
    using validate_all_recorded by metis
  from a rep have "(c, cat) \<in> set (categories (score_results cfg st))" by simp
  from report_entry [OF r this] obtain w where cin: "c \<in> category ` set outs"
    and cat: "cat = scored (tally_of w c outs)" by blast
  from filter_category_nonempty [OF cin]
  have pos: "0 < total_checks (tally_of w c outs)" by (simp only: total_checks_tally_of)
  then have 1: "0 < total_checks cat" by (simp add: cat)
  from cin have 2: "results cat \<noteq> []"
    by (auto simp: cat tally_of_def filter_empty_conv)
  from cin obtain r0 where "r0 \<in> set outs" "category r0 = c" by auto
  with p have 3: "category_enabled cfg c" by (auto simp: list_all_iff run_outcome_def)
  have 4: "\<forall>r \<in> set (results cat). category r = c" by (simp add: cat tally_of_def)
  have 5: "score cat =
          ((real (checks_passed cat) + 0.5 * real (checks_warned cat))
             / real (total_checks cat)) * 100"
    using pos by (simp add: cat scored_score category_score_def)
  from 1 2 3 4 5 show "0 < total_checks cat \<and> results cat \<noteq> [] \<and> category_enabled cfg c
     \<and> (\<forall>r \<in> set (results cat). category r = c)
     \<and> score cat =
          ((real (checks_passed cat) + 0.5 * real (checks_warned cat))
             / real (total_checks cat)) * 100"
    by blast
qed

lemma run_disabled_absent:
  "validate_all cfg snap = Inr report \<and> \<not> category_enabled cfg c \<longrightarrow>
     c \<notin> fst ` set (categories report)"
  using run_report_has_checks [of cfg snap report c] by force

lemma run_weight_irrelevant:
  "validate_all cfg snap = Inr report \<and> c \<notin> fst ` set (categories report)
     \<and> validation_categories cfg = Some (Table vc) \<longrightarrow>
   validate_all (cfg\<lparr>validation_categories := Some (Table (vc(c \<mapsto> entry)))\<rparr>) snap = Inr report"
proof
  assume a: "validate_all cfg snap = Inr report \<and> c \<notin> fst ` set (categories report)
     \<and> validation_categories cfg = Some (Table vc)"
  then obtain outs st where r: "record_all cfg outs [] = Inr st"
    and rep: "report = score_results cfg st"
    and run: "\<And>vc. run_validators (cfg\<lparr>validation_categories := vc\<rparr>) snap
            = record_all (cfg\<lparr>validation_categories := vc\<rparr>) outs []"
    using validate_all_recorded by metis
  have "fst ` set (categories (score_results cfg st)) = fst ` set st"
    by (force simp: categories_score_results)
  with tallied_keys [OF record_all_from_empty [OF r]]
  have "fst ` set (categories (score_results cfg st)) = category ` set outs" by simp
  with a rep have "c \<notin> category ` set outs" by simp
  with unrecorded_weight_irrelevant [of cfg outs st c vc entry] r a
  have "record_all (cfg\<lparr>validation_categories := Some (Table (vc(c \<mapsto> entry)))\<rparr>) outs [] = Inr st"
    and "score_results (cfg\<lparr>validation_categories := Some (Table (vc(c \<mapsto> entry)))\<rparr>) st
         = score_results cfg st"
    by blast+
  with run [of "Some (Table (vc(c \<mapsto> entry)))"] rep
  show "validate_all (cfg\<lparr>validation_categories := Some (Table (vc(c \<mapsto> entry)))\<rparr>) snap = Inr report"
    by (simp add: validate_all_def)
qed

lemma run_category_present:
  "validate_all cfg snap = Inr report \<and> (c, cat) \<in> set (categories report) \<longrightarrow>
     results cat \<noteq> [] \<and> 0 < total_checks cat \<and> category_enabled cfg c"
  using run_report_has_checks [of cfg snap report c cat] by blast

subsection \<open>Globbing\<close>

lemma glob_match_literal:
  "CHR ''*'' \<notin> set lit \<Longrightarrow> CHR ''?'' \<notin> set lit \<Longrightarrow> glob_match lit s \<longleftrightarrow> s = lit"
proof (induction lit arbitrary: s)
  case Nil
  show ?case by simp
next
  case (Cons p ps)
  then show ?case by (cases s) auto
qed

lemma glob_match_star_literal:
  assumes "CHR ''*'' \<notin> set lit" and "CHR ''?'' \<notin> set lit"
  shows "glob_match (CHR ''*'' # lit) s \<longleftrightarrow> suffix lit s"
proof (induction s)
  case Nil
  show ?case using assms by (auto simp: glob_match_literal)
next
  case (Cons c cs)
  have "glob_match (CHR ''*'' # lit) (c # cs)
      \<longleftrightarrow> glob_match lit (c # cs) \<or> glob_match (CHR ''*'' # lit) cs"
    by simp
  also have "\<dots> \<longleftrightarrow> c # cs = lit \<or> suffix lit cs"
    using assms Cons.IH by (simp add: glob_match_literal)
  also have "\<dots> \<longleftrightarrow> suffix lit (c # cs)"
    by (auto simp: suffix_Cons)
  finally show ?case .
qed

lemma secret_scan_pattern_matches:
  "glob_match secret_scan_pattern nm \<longleftrightarrow> endswith nm ''.{ts,tsx,js,jsx}''"
proof -
  have "glob_match (CHR ''*'' # ''.{ts,tsx,js,jsx}'') nm \<longleftrightarrow> suffix ''.{ts,tsx,js,jsx}'' nm"
    by (rule glob_match_star_literal) simp_all
  then show ?thesis by (simp add: secret_scan_pattern_def endswith_def)
qed

lemma glob_match_all: "glob_match ''*'' nm"
  using glob_match_star_literal [of "[]" nm] by simp

lemma brace_suffix_last:
  "endswith nm ''.{ts,tsx,js,jsx}'' \<Longrightarrow> nm \<noteq> [] \<and> last nm = CHR ''}''"
  by (auto simp: endswith_def suffix_def)

lemma ordinary_extension_last:
  "endswith nm ''.ts'' \<or> endswith nm ''.tsx'' \<or> endswith nm ''.js'' \<or> endswith nm ''.jsx''
     \<Longrightarrow> nm \<noteq> [] \<and> last nm \<noteq> CHR ''}''"
  by (auto simp: endswith_def suffix_def)

lemma ordinary_extension_not_matched:
  "endswith nm ''.ts'' \<or> endswith nm ''.tsx'' \<or> endswith nm ''.js'' \<or> endswith nm ''.jsx''
     \<longrightarrow> \<not> glob_match secret_scan_pattern nm"
  using brace_suffix_last [of nm] ordinary_extension_last [of nm]
  by (auto simp: secret_scan_pattern_matches)

lemma scanned_files_suffix:
  "e \<in> set (scanned_files snap d) \<longrightarrow>
     e \<in> set (descendants snap d) \<and> endswith (basename (rel_path e)) ''.{ts,tsx,js,jsx}''"
  by (auto simp: scanned_files_def rglob_def secret_scan_pattern_matches)

lemma ordinary_file_not_scanned:
  "endswith (basename (rel_path e)) ''.ts'' \<or> endswith (basename (rel_path e)) ''.tsx''
     \<or> endswith (basename (rel_path e)) ''.js'' \<or> endswith (basename (rel_path e)) ''.jsx''
   \<longrightarrow> e \<notin> set (scanned_files snap d)"
  using ordinary_extension_not_matched [of "basename (rel_path e)"]
  by (auto simp: scanned_files_def rglob_def)

lemma run_secret_outcome_source:
  "validate_all cfg snap = Inr report \<and> (c, cat) \<in> set (categories report)
     \<and> r \<in> set (results cat) \<and> check_name r = ''no_hardcoded_secrets''
   \<longrightarrow> c = ''security''
       \<and> (\<exists>d \<in> set security_source_dirs. \<exists>e \<in> set (scanned_files snap d).
             details r = Some (''Found in '' @ rel_path e)
             \<and> endswith (basename (rel_path e)) ''.{ts,tsx,js,jsx}'')"
proof
  assume a: "validate_all cfg snap = Inr report \<and> (c, cat) \<in> set (categories report)
     \<and> r \<in> set (results cat) \<and> check_name r = ''no_hardcoded_secrets''"
  then obtain outs st where p: "list_all (run_outcome cfg snap) outs"
    and rec: "record_all cfg outs [] = Inr st" and rep: "report = score_results cfg st"
    using validate_all_recorded by metis
  from a rep have "(c, cat) \<in> set (categories (score_results cfg st))" by simp
  from report_entry [OF rec this] obtain w where cat: "cat = scored (tally_of w c outs)" by blast
  from a have m: "r \<in> set outs" "category r = c" by (simp_all add: cat tally_of_def)
  with p have ro: "run_outcome cfg snap r" by (simp add: list_all_iff)
  with a have c: "category r = ''security''" by (simp add: run_outcome_def)
  with ro a have "secret_finding snap r" by (auto simp: run_outcome_def)
  then obtain d e where "d \<in> set security_source_dirs" "e \<in> set (scanned_files snap d)"
    "details r = Some (''Found in '' @ rel_path e)"
    unfolding secret_finding_def by blast
  with scanned_files_suffix [of e snap d] m c
  show "c = ''security''
       \<and> (\<exists>d \<in> set security_source_dirs. \<exists>e \<in> set (scanned_files snap d).
             details r = Some (''Found in '' @ rel_path e)
             \<and> endswith (basename (rel_path e)) ''.{ts,tsx,js,jsx}'')"
    by blast
qed

subsection \<open>The secret scan, file by file\<close>

lemma scan_patterns_find:
  "scan_patterns cfg path content pats st =
     (case find (\<lambda>p. str_in (fst p) content) pats of
        None \<Rightarrow> Inr st
      | Some p \<Rightarrow>
          add_result cfg
            \<lparr>category = ''security'', check_name = ''no_hardcoded_secrets'',
             passed = False, severity = ''critical'',
             message = ''Potential '' @ snd p @ '' hardcoded'',
             details = Some (''Found in '' @ path)\<rparr> st)"
  by (induction pats) auto

lemma add_result_record_all: "add_result cfg r st = record_all cfg [r] st"
  by (simp split: sum.splits)

lemma scan_file_readable:
  "readable e \<Longrightarrow> scan_file cfg e st = record_all cfg (secret_outcomes e) st"
  by (auto simp: readable_def scan_file_def secret_outcomes_def scan_patterns_find
      split: sum.splits option.splits)

lemma for_each_record_all:
  "(\<And>x st. x \<in> set xs \<Longrightarrow> body x st = record_all cfg (f x) st)
     \<Longrightarrow> for_each xs body st = record_all cfg (concat (map f xs)) st"
proof (induction xs arbitrary: st)
  case Nil
  show ?case by simp
next
  case (Cons x xs)
  have 1: "body x st = record_all cfg (f x) st" by (rule Cons.prems) simp
  have 2: "\<And>st'. for_each xs body st' = record_all cfg (concat (map f xs)) st'"
    by (rule Cons.IH) (simp add: Cons.prems)
  show ?case
    by (simp add: 1 2 [abs_def] record_all_append)
qed

lemma for_each_nested:
  "for_each xs (\<lambda>x. for_each (g x) body) st = for_each (concat (map g xs)) body st"
proof (induction xs arbitrary: st)
  case Nil
  show ?case by simp
next
  case (Cons x xs)
  have app: "\<And>ys zs st. for_each (ys @ zs) body st = and_then (for_each ys body st) (for_each zs body)"
  proof -
    fix ys zs st show "for_each (ys @ zs) body st = and_then (for_each ys body st) (for_each zs body)"
      by (induction ys arbitrary: st) (auto simp: and_then_def split: sum.splits)
  qed
  have "for_each xs (\<lambda>x. for_each (g x) body) = for_each (concat (map g xs)) body"
    by (rule ext) (rule Cons.IH)
  then show ?case by (simp add: app)
qed

lemma security_scan_trace:
  assumes "list_all readable (all_scanned snap)"
  shows "for_each security_source_dirs
           (\<lambda>dir_name. for_each (scanned_files snap dir_name) (scan_file cfg)) st
         = record_all cfg (concat (map secret_outcomes (all_scanned snap))) st"
proof -
  have "for_each security_source_dirs
           (\<lambda>dir_name. for_each (scanned_files snap dir_name) (scan_file cfg)) st
        = for_each (all_scanned snap) (scan_file cfg) st"
    unfolding all_scanned_def by (rule for_each_nested)
  also have "\<dots> = record_all cfg (concat (map secret_outcomes (all_scanned snap))) st"
  proof (rule for_each_record_all)
    fix x st assume "x \<in> set (all_scanned snap)"
    with assms have "readable x" by (simp add: list_all_iff)
    then show "scan_file cfg x st = record_all cfg (secret_outcomes x) st"
      by (rule scan_file_readable)
  qed
  finally show ?thesis .
qed

lemma find_Some_holds: "find P xs = Some x \<Longrightarrow> x \<in> set xs \<and> P x"
  by (induction xs) (auto split: if_splits)

lemma holds_secret_find:
  "read_text_ignore (rel_path e) (node e) = Inr content \<Longrightarrow>
     holds_secret e \<longleftrightarrow> find (\<lambda>p. str_in (fst p) content) dangerous_patterns \<noteq> None"
  by (force simp: holds_secret_def list_ex_iff find_None_iff)

lemma secret_outcomes_count:
  "length (concat (map secret_outcomes es)) = length (filter holds_secret es)"
proof (induction es)
  case Nil
  show ?case by simp
next
  case (Cons e es)
  have "length (secret_outcomes e) = (if holds_secret e then 1 else 0)"
  proof (cases "read_text_ignore (rel_path e) (node e)")
    case (Inl err)
    then show ?thesis by (simp add: secret_outcomes_def holds_secret_def)
  next
    case (Inr content)
    from holds_secret_find [OF Inr] Inr show ?thesis
      by (auto simp: secret_outcomes_def split: option.splits)
  qed
  with Cons.IH show ?case by simp
qed

lemma secret_outcomes_one:
  assumes "r \<in> set (secret_outcomes e)"
  shows "category r = ''security'' \<and> check_name r = ''no_hardcoded_secrets''
     \<and> severity r = ''critical'' \<and> \<not> passed r
     \<and> holds_secret e \<and> details r = Some (''Found in '' @ rel_path e)"
proof (cases "read_text_ignore (rel_path e) (node e)")
  case (Inl err)
  with assms show ?thesis by (simp add: secret_outcomes_def)
next
  case (Inr content)
  show ?thesis
  proof (cases "find (\<lambda>p. str_in (fst p) content) dangerous_patterns")
    case None
    with assms Inr show ?thesis by (simp add: secret_outcomes_def)
  next
    case (Some p)
    with holds_secret_find [OF Inr] have "holds_secret e" by simp
    with assms Inr Some show ?thesis by (simp add: secret_outcomes_def)
  qed
qed

lemma secret_outcomes_shape:
  "r \<in> set (concat (map secret_outcomes es)) \<Longrightarrow>
     category r = ''security'' \<and> check_name r = ''no_hardcoded_secrets''
     \<and> severity r = ''critical'' \<and> \<not> passed r
     \<and> (\<exists>e \<in> set es. holds_secret e \<and> details r = Some (''Found in '' @ rel_path e))"
  using secret_outcomes_one by fastforce

lemma security_records:
  "security_enabled (security cfg) \<and> list_all readable (all_scanned snap) \<longrightarrow>
     (\<exists>env found.
        validate_security cfg snap st = record_all cfg (env # found) st
        \<and> check_name env = ''env_example_exists''
        \<and> length found = length (filter holds_secret (all_scanned snap))
        \<and> (\<forall>r \<in> set found.
              category r = ''security'' \<and> check_name r = ''no_hardcoded_secrets''
              \<and> severity r = ''critical'' \<and> \<not> passed r
              \<and> (\<exists>e \<in> set (all_scanned snap).
                    holds_secret e \<and> details r = Some (''Found in '' @ rel_path e))))"
proof
  assume a: "security_enabled (security cfg) \<and> list_all readable (all_scanned snap)"
  let ?env = "\<lparr>category = ''security'', check_name = ''env_example_exists'',
              passed = file_exists snap (example_file_name (security cfg)), severity = ''warning'',
              message = example_file_name (security cfg) @ '' file exists'',
              details = Some (if \<not> file_exists snap (example_file_name (security cfg))
                              then ''Not found (recommended)'' else ''Found'')\<rparr>"
  let ?found = "concat (map secret_outcomes (all_scanned snap))"
  from a have r: "list_all readable (all_scanned snap)" by simp
  have "validate_security cfg snap st = record_all cfg (?env # ?found) st"
    using a unfolding validate_security_def Let_def
    by (simp add: security_scan_trace [OF r, abs_def] and_then_def split: sum.splits)
  moreover have "check_name ?env = ''env_example_exists''" by simp
  moreover have "length ?found = length (filter holds_secret (all_scanned snap))"
    by (rule secret_outcomes_count)
  moreover have "\<forall>r \<in> set ?found.
              category r = ''security'' \<and> check_name r = ''no_hardcoded_secrets''
              \<and> severity r = ''critical'' \<and> \<not> passed r
              \<and> (\<exists>e \<in> set (all_scanned snap).
                    holds_secret e \<and> details r = Some (''Found in '' @ rel_path e))"
    using secret_outcomes_shape by blast
  ultimately show "\<exists>env found.
        validate_security cfg snap st = record_all cfg (env # found) st
        \<and> check_name env = ''env_example_exists''
        \<and> length found = length (filter holds_secret (all_scanned snap))
        \<and> (\<forall>r \<in> set found.
              category r = ''security'' \<and> check_name r = ''no_hardcoded_secrets''
              \<and> severity r = ''critical'' \<and> \<not> passed r
              \<and> (\<exists>e \<in> set (all_scanned snap).
                    holds_secret e \<and> details r = Some (''Found in '' @ rel_path e)))"
    by blast
qed


subsection \<open>The naming check\<close>


lemma naming_disabled:
  "\<not> naming_enabled (naming_conventions cfg) \<longrightarrow> validate_naming_conventions cfg snap st = Inr st"
  by (simp add: validate_naming_conventions_def)


subsection \<open>Concrete runs\<close>

lemmas run_defs =
  validate_all_def run_validators_def validate_hooks_def validate_documentation_def
  validate_testing_def validate_quality_gates_def validate_git_def validate_security_def
  validate_naming_conventions_def validate_migrations_def quiet_config_def off_tool_def
  standard_bands_def file_exists_def is_dir_def and_then_def add_result_def
  category_weight_def tally_def new_CategoryResult_def Let_def score_results_def
  total_checks_def

lemmas scan_defs =
  security_source_dirs_def scanned_files_def rglob_def secret_scan_pattern_def basename_def
  scan_file_def dangerous_patterns_def secret_text_def str_in_def sublist_code

lemma hooks_only_run:
  "validate_all hooks_only_config empty_project =
     Inr \<lparr>overall_score = 25, grade = ''F'',
          categories =
            [(''hooks'',
              \<lparr>name = ''hooks'', weight = 10, checks_passed = 0, checks_failed = 1,
               checks_warned = 1, score = 25,
               results =
                 [\<lparr>category = ''hooks'', check_name = ''lefthook_config_exists'', passed = False,
                   severity = ''critical'', message = ''lefthook.yml configuration file'',
                   details = Some ''Not found''\<rparr>,
                  \<lparr>category = ''hooks'', check_name = ''claude_settings_exists'', passed = False,
                   severity = ''warning'', message = ''Claude Code settings.json'',
                   details = Some ''Not found''\<rparr>]\<rparr>)]\<rparr>"
  by (simp add: run_defs hooks_only_config_def empty_project_def)

lemma two_secrets_run:
  "validate_all security_only_config two_secrets_project =
     Inr \<lparr>overall_score = 50 / 3, grade = ''F'',
          categories =
            [(''security'',
              \<lparr>name = ''security'', weight = 10, checks_passed = 0, checks_failed = 2,
               checks_warned = 1, score = 50 / 3,
               results =
                 [\<lparr>category = ''security'', check_name = ''env_example_exists'', passed = False,
                   severity = ''warning'', message = ''.env.local.example file exists'',
                   details = Some ''Not found (recommended)''\<rparr>,
                  \<lparr>category = ''security'', check_name = ''no_hardcoded_secrets'', passed = False,
                   severity = ''critical'', message = ''Potential Stripe live key hardcoded'',
                   details = Some ''Found in src/a.{ts,tsx,js,jsx}''\<rparr>,
                  \<lparr>category = ''security'', check_name = ''no_hardcoded_secrets'', passed = False,
                   severity = ''critical'', message = ''Potential Stripe live key hardcoded'',
                   details = Some ''Found in src/b.{ts,tsx,js,jsx}''\<rparr>]\<rparr>)]\<rparr>"
  by (simp add: run_defs security_only_config_def two_secrets_project_def scan_defs)

lemma two_dirs_run:
  "validate_all security_only_config two_dirs_project =
     Inr \<lparr>overall_score = 50 / 3, grade = ''F'',
          categories =
            [(''security'',
              \<lparr>name = ''security'', weight = 10, checks_passed = 0, checks_failed = 2,
               checks_warned = 1, score = 50 / 3,
               results =
                 [\<lparr>category = ''security'', check_name = ''env_example_exists'', passed = False,
                   severity = ''warning'', message = ''.env.local.example file exists'',
                   details = Some ''Not found (recommended)''\<rparr>,
                  \<lparr>category = ''security'', check_name = ''no_hardcoded_secrets'', passed = False,
                   severity = ''critical'', message = ''Potential Stripe live key hardcoded'',
                   details = Some ''Found in app/keys.{ts,tsx,js,jsx}''\<rparr>,
                  \<lparr>category = ''security'', check_name = ''no_hardcoded_secrets'', passed = False,
                   severity = ''critical'', message = ''Potential Stripe live key hardcoded'',
                   details = Some ''Found in lib/keys.{ts,tsx,js,jsx}''\<rparr>]\<rparr>)]\<rparr>"
  by (simp add: run_defs security_only_config_def two_dirs_project_def scan_defs)

lemma one_secret_scanned:
  "all_scanned one_secret_project =
     [\<lparr>rel_path = ''lib/keys.{ts,tsx,js,jsx}'',
       node = RegularFile (Text (''a = sk_live_1;'' @ [CHR 0x0A] @ ''b = AKIA2;''))\<rparr>,
      \<lparr>rel_path = ''lib/util.{ts,tsx,js,jsx}'',
       node = RegularFile (Undecodable ''export const n = 1;'')\<rparr>]"
  by (simp add: all_scanned_def one_secret_project_def scan_defs file_exists_def is_dir_def)

lemma one_secret_facts:
  "list_all readable (all_scanned one_secret_project)"
  "length (filter holds_secret (all_scanned one_secret_project)) = 1"
  unfolding one_secret_scanned
  by (simp_all add: readable_def holds_secret_def dangerous_patterns_def str_in_def sublist_code)

lemma two_secrets_facts:
  "list_all readable (all_scanned two_secrets_project)"
  "length (filter holds_secret (all_scanned two_secrets_project)) = 2"
  by (simp_all add: all_scanned_def two_secrets_project_def scan_defs file_exists_def is_dir_def
      readable_def holds_secret_def)






section \<open>The claims\<close>

subsection \<open>The category score\<close>

lemma record_six:
  "\<exists>st. record_all quiet_config six_outcomes [] = Inr st"
  by (simp add: six_outcomes_def outcome_def add_result_def category_weight_def quiet_config_def
     tally_def new_CategoryResult_def)

lemma recorded_category_score:
  "record_all cfg outs [] = Inr st \<and> c \<in> category ` set outs \<longrightarrow>
      (\<exists>cat. map_of (categories (score_results cfg st)) c = Some cat
         \<and> total_checks cat = length (filter (\<lambda>r. category r = c) outs)
         \<and> 0 < total_checks cat
         \<and> score cat =
             ((real (checks_passed cat) + 0.5 * real (checks_warned cat))
                / real (total_checks cat)) * 100)"
proof
  assume a: "record_all cfg outs [] = Inr st \<and> c \<in> category ` set outs"
  then have t: "tallied cfg outs st" by (simp add: record_all_from_empty)
  from tallied_lookup [OF t] a obtain w' where
    m: "map_of st c = Some (tally_of w' c outs)" by blast
  let ?cat = "scored (tally_of w' c outs)"
  from a have "c \<in> category ` set outs" by simp
  from filter_category_nonempty [OF this]
  have pos: "0 < total_checks (tally_of w' c outs)"
    by (simp only: total_checks_tally_of)
  have "map_of (categories (score_results cfg st)) c = Some ?cat"
    by (simp add: map_of_categories m)
  moreover have "total_checks ?cat = length (filter (\<lambda>r. category r = c) outs)"
    by (simp add: total_checks_tally_of)
  moreover have "0 < total_checks ?cat" using pos by simp
  moreover have "score ?cat =
      ((real (checks_passed ?cat) + 0.5 * real (checks_warned ?cat)) / real (total_checks ?cat)) * 100"
    using pos by (simp add: scored_score category_score_def)
  ultimately show "\<exists>cat. map_of (categories (score_results cfg st)) c = Some cat
         \<and> total_checks cat = length (filter (\<lambda>r. category r = c) outs)
         \<and> 0 < total_checks cat
         \<and> score cat =
             ((real (checks_passed cat) + 0.5 * real (checks_warned cat))
                / real (total_checks cat)) * 100"
    by blast
qed

lemma entry_score:
  "(c, cat) \<in> set (categories (score_results cfg st)) \<and> 0 < total_checks cat \<longrightarrow>
        score cat =
          ((real (checks_passed cat) + 0.5 * real (checks_warned cat))
             / real (total_checks cat)) * 100"
proof
  assume a: "(c, cat) \<in> set (categories (score_results cfg st)) \<and> 0 < total_checks cat"
  then obtain r where "cat = scored r" by (auto simp: categories_score_results)
  with a show "score cat =
          ((real (checks_passed cat) + 0.5 * real (checks_warned cat))
             / real (total_checks cat)) * 100"
    by (simp add: scored_score category_score_def)
qed

lemma run_category_score:
  "validate_all cfg snap = Inr report \<and> (c, cat) \<in> set (categories report) \<longrightarrow>
     0 < total_checks cat
     \<and> score cat =
          ((real (checks_passed cat) + 0.5 * real (checks_warned cat))
             / real (total_checks cat)) * 100"
  using run_report_has_checks [of cfg snap report c cat] by blast

lemma fresh_category_unscored:
  "categories (score_results cfg [(c, new_CategoryResult c w)]) = [(c, new_CategoryResult c w)]"
  by (simp add: categories_score_results scored_def new_CategoryResult_def total_checks_def)

lemma three_two_one_score:
  "categories (score_results cfg
        [(c, \<lparr>name = c, weight = w, checks_passed = 3, checks_failed = 1, checks_warned = 2,
              score = 0, results = rs\<rparr>)])
      = [(c, \<lparr>name = c, weight = w, checks_passed = 3, checks_failed = 1, checks_warned = 2,
              score = 200 / 3, results = rs\<rparr>)]"
  by (simp add: categories_score_results scored_def category_score_def total_checks_def)

text \<open>
  C1. Every category in the report of a run has at least one recorded outcome and the score
  ((passed + 0.5 * warned) / total) * 100 with total = passed + failed + warned; a
  category that outcomes were recorded for is in the report, its total the number of its
  outcomes; and every entry of any results dict that has a check is scored by the same
  formula. The scoring loop leaves a category without outcomes as it was constructed, with
  score 0. A category with 3 passed, 2 warned and 1 failed checks scores 200/3, which is
  66.67 within 0.01.
\<close>

theorem category_score_formula:
  "(validate_all cfg snap = Inr report \<and> (c, cat) \<in> set (categories report) \<longrightarrow>
      0 < total_checks cat
      \<and> score cat =
           ((real (checks_passed cat) + 0.5 * real (checks_warned cat))
              / real (total_checks cat)) * 100)
   \<and> (record_all cfg outs [] = Inr st \<and> c \<in> category ` set outs \<longrightarrow>
      (\<exists>cat. map_of (categories (score_results cfg st)) c = Some cat
         \<and> total_checks cat = length (filter (\<lambda>r. category r = c) outs)
         \<and> 0 < total_checks cat
         \<and> score cat =
             ((real (checks_passed cat) + 0.5 * real (checks_warned cat))
                / real (total_checks cat)) * 100))
   \<and> ((c, cat) \<in> set (categories (score_results cfg st)) \<and> 0 < total_checks cat \<longrightarrow>
        score cat =
          ((real (checks_passed cat) + 0.5 * real (checks_warned cat))
             / real (total_checks cat)) * 100)
   \<and> categories (score_results cfg [(c, new_CategoryResult c w)]) = [(c, new_CategoryResult c w)]
   \<and> score (new_CategoryResult c w) = 0
   \<and> categories (score_results cfg
        [(c, \<lparr>name = c, weight = w, checks_passed = 3, checks_failed = 1, checks_warned = 2,
              score = 0, results = rs\<rparr>)])
      = [(c, \<lparr>name = c, weight = w, checks_passed = 3, checks_failed = 1, checks_warned = 2,
              score = 200 / 3, results = rs\<rparr>)]
   \<and> \<bar>200 / 3 - 66.67\<bar> \<le> (0.01 :: real)"
  apply (intro conjI)
        apply (rule run_category_score)
       apply (rule recorded_category_score)
      apply (rule entry_score)
     apply (rule fresh_category_unscored)
    apply (simp add: new_CategoryResult_def)
   apply (rule three_two_one_score)
  apply simp
  done

theorem category_score_formula_witness:
  "(\<exists>report cat. validate_all hooks_only_config empty_project = Inr report
      \<and> (''hooks'', cat) \<in> set (categories report)
      \<and> checks_passed cat = 0 \<and> checks_warned cat = 1 \<and> total_checks cat = 2
      \<and> score cat = 25)
   \<and> (\<exists>st cat. record_all quiet_config six_outcomes [] = Inr st
      \<and> ''git'' \<in> category ` set six_outcomes
      \<and> map_of (categories (score_results quiet_config st)) ''git'' = Some cat
      \<and> (''git'', cat) \<in> set (categories (score_results quiet_config st))
      \<and> 0 < total_checks cat
      \<and> total_checks cat = 6 \<and> checks_passed cat = 3 \<and> checks_warned cat = 2
      \<and> score cat = 200 / 3)"
proof -
  let ?hooks = "\<lparr>name = ''hooks'', weight = 10, checks_passed = 0, checks_failed = 1,
               checks_warned = 1, score = 25,
               results =
                 [\<lparr>category = ''hooks'', check_name = ''lefthook_config_exists'', passed = False,
                   severity = ''critical'', message = ''lefthook.yml configuration file'',
                   details = Some ''Not found''\<rparr>,
                  \<lparr>category = ''hooks'', check_name = ''claude_settings_exists'', passed = False,
                   severity = ''warning'', message = ''Claude Code settings.json'',
                   details = Some ''Not found''\<rparr>]\<rparr>"
  let ?report = "\<lparr>overall_score = 25, grade = ''F'', categories = [(''hooks'', ?hooks)]\<rparr>"
  have run: "validate_all hooks_only_config empty_project = Inr ?report"
    by (rule hooks_only_run)
  have mem: "(''hooks'', ?hooks) \<in> set (categories ?report)" by simp
  from category_score_formula [where cfg = hooks_only_config and snap = empty_project
      and report = ?report and c = "''hooks''" and cat = ?hooks] run mem
  have "score ?hooks =
           ((real (checks_passed ?hooks) + 0.5 * real (checks_warned ?hooks))
              / real (total_checks ?hooks)) * 100" by blast
  then have "score ?hooks = 25" by (simp add: total_checks_def)
  with run mem have first: "\<exists>report cat. validate_all hooks_only_config empty_project = Inr report
      \<and> (''hooks'', cat) \<in> set (categories report)
      \<and> checks_passed cat = 0 \<and> checks_warned cat = 1 \<and> total_checks cat = 2
      \<and> score cat = 25"
    by (intro exI [of _ ?report] exI [of _ ?hooks]) (simp add: total_checks_def)
  obtain st where st: "record_all quiet_config six_outcomes [] = Inr st"
    using record_six by blast
  have inn: "''git'' \<in> category ` set six_outcomes"
    by (simp add: six_outcomes_def outcome_def)
  from category_score_formula [where cfg = quiet_config and outs = six_outcomes and st = st
      and c = "''git''"] st inn
  obtain cat where cat: "map_of (categories (score_results quiet_config st)) ''git'' = Some cat"
    "total_checks cat = length (filter (\<lambda>r. category r = ''git'') six_outcomes)"
    "score cat = ((real (checks_passed cat) + 0.5 * real (checks_warned cat)) / real (total_checks cat)) * 100"
    by blast
  from record_all_from_empty [OF st] have t: "tallied quiet_config six_outcomes st" .
  from tallied_lookup [OF t inn] obtain w where "map_of st ''git'' = Some (tally_of w ''git'' six_outcomes)"
    by blast
  with cat(1) have ceq: "cat = scored (tally_of w ''git'' six_outcomes)"
    by (simp add: map_of_categories)
  have p: "checks_passed cat = 3" and w: "checks_warned cat = 2"
    unfolding ceq by (simp_all add: tally_of_def n_passed_def n_warned_def six_outcomes_def outcome_def)
  have tot: "total_checks cat = 6"
    using cat(2) by (simp add: six_outcomes_def outcome_def)
  have sc: "score cat = 200 / 3" using cat(3) p w tot by simp
  from cat(1) have mem2: "(''git'', cat) \<in> set (categories (score_results quiet_config st))"
    by (rule map_of_SomeD)
  from tot have pos: "0 < total_checks cat" by simp
  from st inn cat(1) mem2 pos tot p w sc
  have second: "\<exists>st cat. record_all quiet_config six_outcomes [] = Inr st
      \<and> ''git'' \<in> category ` set six_outcomes
      \<and> map_of (categories (score_results quiet_config st)) ''git'' = Some cat
      \<and> (''git'', cat) \<in> set (categories (score_results quiet_config st))
      \<and> 0 < total_checks cat
      \<and> total_checks cat = 6 \<and> checks_passed cat = 3 \<and> checks_warned cat = 2
      \<and> score cat = 200 / 3"
    by blast
  from first second show ?thesis by (rule conjI)
qed

subsection \<open>The overall score\<close>

text \<open>
  C2 (as amended). The overall score is the weighted mean of the scores of the categories
  that have a check, weighted by their configured weights, when the sum of those weights
  is positive, and 0 when that sum is zero or negative. After a run the categories that
  have a check are exactly the categories of the recorded outcomes. Two categories with
  weights 70 and 30 and scores 80 and 50 give 71.
\<close>

theorem overall_score_weighted_mean:
  "overall_score (score_results cfg st) =
     (let inc = filter (\<lambda>r. 0 < total_checks r) (map snd (categories (score_results cfg st)));
          total_weight = (\<Sum>r\<leftarrow>inc. weight r);
          total_score = (\<Sum>r\<leftarrow>inc. score r * real_of_int (weight r))
      in if 0 < total_weight then total_score / real_of_int total_weight else 0)
   \<and> (record_all cfg outs [] = Inr st \<longrightarrow>
        fst ` set (categories (score_results cfg st)) = category ` set outs
        \<and> filter (\<lambda>r. 0 < total_checks r) (map snd (categories (score_results cfg st)))
            = map snd (categories (score_results cfg st)))
   \<and> overall_score (score_results cfg
        [(c1, \<lparr>name = c1, weight = 70, checks_passed = 4, checks_failed = 1, checks_warned = 0,
               score = 0, results = rs1\<rparr>),
         (c2, \<lparr>name = c2, weight = 30, checks_passed = 1, checks_failed = 1, checks_warned = 0,
               score = 0, results = rs2\<rparr>)]) = 71
   \<and> map (\<lambda>(c, r). score r) (categories (score_results cfg
        [(c1, \<lparr>name = c1, weight = 70, checks_passed = 4, checks_failed = 1, checks_warned = 0,
               score = 0, results = rs1\<rparr>),
         (c2, \<lparr>name = c2, weight = 30, checks_passed = 1, checks_failed = 1, checks_warned = 0,
               score = 0, results = rs2\<rparr>)])) = [80, 50]"
proof (intro conjI impI)
  show "overall_score (score_results cfg st) =
     (let inc = filter (\<lambda>r. 0 < total_checks r) (map snd (categories (score_results cfg st)));
          total_weight = (\<Sum>r\<leftarrow>inc. weight r);
          total_score = (\<Sum>r\<leftarrow>inc. score r * real_of_int (weight r))
      in if 0 < total_weight then total_score / real_of_int total_weight else 0)"
    unfolding Let_def categories_score_results included_def [symmetric]
      included_scored sum_scored_weight sum_scored_score
    by (rule overall_score_results)
next
  assume a: "record_all cfg outs [] = Inr st"
  then have t: "tallied cfg outs st" by (rule record_all_from_empty)
  have "fst ` set (categories (score_results cfg st)) = fst ` set st"
    by (force simp: categories_score_results)
  then show "fst ` set (categories (score_results cfg st)) = category ` set outs"
    by (simp add: tallied_keys [OF t])
  have "included (categories (score_results cfg st)) = map snd (categories (score_results cfg st))"
    unfolding categories_score_results included_scored included_tallied [OF t]
    by (simp add: comp_def case_prod_unfold)
  then show "filter (\<lambda>r. 0 < total_checks r) (map snd (categories (score_results cfg st)))
            = map snd (categories (score_results cfg st))"
    by (simp add: included_def)
next
  show "overall_score (score_results cfg
        [(c1, \<lparr>name = c1, weight = 70, checks_passed = 4, checks_failed = 1, checks_warned = 0,
               score = 0, results = rs1\<rparr>),
         (c2, \<lparr>name = c2, weight = 30, checks_passed = 1, checks_failed = 1, checks_warned = 0,
               score = 0, results = rs2\<rparr>)]) = 71"
    by (simp add: score_results_def total_checks_def Let_def)
next
  show "map (\<lambda>(c, r). score r) (categories (score_results cfg
        [(c1, \<lparr>name = c1, weight = 70, checks_passed = 4, checks_failed = 1, checks_warned = 0,
               score = 0, results = rs1\<rparr>),
         (c2, \<lparr>name = c2, weight = 30, checks_passed = 1, checks_failed = 1, checks_warned = 0,
               score = 0, results = rs2\<rparr>)])) = [80, 50]"
    by (simp add: score_results_def total_checks_def Let_def)
qed

text \<open>
  The claim as worded fails for a negative weight sum: one passed check in a category of
  weight -10 has the weighted mean 100, and the code returns 0.
\<close>

theorem overall_score_negative_weight_counterexample:
  "record_all negative_weight_config [outcome ''git'' ''gitignore_exists'' True ''critical''] []
     = Inr negative_weight_state
   \<and> overall_score (score_results negative_weight_config negative_weight_state) = 0
   \<and> spec_overall (categories (score_results negative_weight_config negative_weight_state)) = 100
   \<and> overall_score (score_results negative_weight_config negative_weight_state)
       \<noteq> spec_overall (categories (score_results negative_weight_config negative_weight_state))"
proof -
  have 1: "record_all negative_weight_config [outcome ''git'' ''gitignore_exists'' True ''critical''] []
     = Inr negative_weight_state"
    by (simp add: negative_weight_config_def negative_weight_state_def outcome_def add_result_def
        category_weight_def quiet_config_def tally_def new_CategoryResult_def)
  have 2: "overall_score (score_results negative_weight_config negative_weight_state) = 0"
    by (simp add: negative_weight_state_def score_results_def total_checks_def Let_def)
  have 3: "spec_overall (categories (score_results negative_weight_config negative_weight_state)) = 100"
    by (simp add: negative_weight_state_def score_results_def total_checks_def Let_def
        spec_overall_def included_def)
  from 1 2 3 show ?thesis by simp
qed

theorem overall_score_weighted_mean_witness:
  "\<exists>st. record_all quiet_config six_outcomes [] = Inr st
     \<and> fst ` set (categories (score_results quiet_config st)) = {''git''}
     \<and> filter (\<lambda>r. 0 < total_checks r) (map snd (categories (score_results quiet_config st)))
            = map snd (categories (score_results quiet_config st))"
proof -
  obtain st where st: "record_all quiet_config six_outcomes [] = Inr st"
    using record_six by blast
  have "category ` set six_outcomes = {''git''}"
    by (simp add: six_outcomes_def outcome_def)
  with overall_score_weighted_mean [of quiet_config st six_outcomes] st
  show ?thesis by auto
qed

subsection \<open>The grade\<close>

lemma grade_score_results:
  "grade (score_results cfg st) =
     determine_grade (compliance_grading cfg) (overall_score (score_results cfg st))"
  by (simp add: score_results_def Let_def split: prod.splits)

lemma determine_grade_find:
  "determine_grade bands overall =
     (case find (\<lambda>(g, gc). min_percent gc \<le> overall) bands of
        None \<Rightarrow> ''F''
      | Some (g, gc) \<Rightarrow> g)"
  by (induction bands overall rule: determine_grade.induct) auto

text \<open>
  C3. The grade of a report is the label of the first band of
  \<^verbatim>\<open>compliance_grading\<close>, in the order the configuration lists them, whose
  \<^verbatim>\<open>min_percent\<close> the overall score reaches, and the fixed label \<^verbatim>\<open>'F'\<close>
  when the score reaches no band. With the bands A 95, B 80, C 60 in that order a score
  of 82 is graded B and a score of 40 falls through to \<^verbatim>\<open>'F'\<close>.
\<close>

theorem grade_is_first_band_met:
  "grade (score_results cfg st) =
     (case find (\<lambda>(g, gc). min_percent gc \<le> overall_score (score_results cfg st))
             (compliance_grading cfg) of
        None \<Rightarrow> ''F''
      | Some (g, gc) \<Rightarrow> g)
   \<and> determine_grade
         [(''A'', \<lparr>min_percent = 95, description = da\<rparr>),
          (''B'', \<lparr>min_percent = 80, description = db\<rparr>),
          (''C'', \<lparr>min_percent = 60, description = dc\<rparr>)] 82 = ''B''
   \<and> determine_grade
         [(''A'', \<lparr>min_percent = 95, description = da\<rparr>),
          (''B'', \<lparr>min_percent = 80, description = db\<rparr>),
          (''C'', \<lparr>min_percent = 60, description = dc\<rparr>)] 40 = ''F''"
proof (intro conjI)
  show "grade (score_results cfg st) =
     (case find (\<lambda>(g, gc). min_percent gc \<le> overall_score (score_results cfg st))
             (compliance_grading cfg) of
        None \<Rightarrow> ''F''
      | Some (g, gc) \<Rightarrow> g)"
    unfolding grade_score_results by (rule determine_grade_find)
qed simp_all

subsection \<open>The tally\<close>

lemma add_result_cases:
  assumes "add_result cfg r st = Inr st'"
  obtains cat where
    "case map_of st (category r) of
       Some old \<Rightarrow> cat = old
     | None \<Rightarrow> \<exists>w. category_weight cfg (category r) = Inr w \<and> cat = new_CategoryResult (category r) w"
    "st' = AList.update (category r) (tally r cat) st"
  using assms by (auto simp: add_result_def split: option.splits sum.splits)

lemma tally_cases:
  "passed r \<longrightarrow>
      tally r cat = cat\<lparr>results := results cat @ [r], checks_passed := checks_passed cat + 1\<rparr>"
  "\<not> passed r \<and> severity r = ''critical'' \<longrightarrow>
      tally r cat = cat\<lparr>results := results cat @ [r], checks_failed := checks_failed cat + 1\<rparr>"
  "\<not> passed r \<and> severity r \<noteq> ''critical'' \<longrightarrow>
      tally r cat = cat\<lparr>results := results cat @ [r], checks_warned := checks_warned cat + 1\<rparr>"
  "\<not> passed r \<and> (severity r = ''info'' \<or> severity r = ''warning'') \<longrightarrow>
      tally r cat = cat\<lparr>results := results cat @ [r], checks_warned := checks_warned cat + 1\<rparr>"
  "total_checks (tally r cat) = total_checks cat + 1"
  by (auto simp: tally_def Let_def total_checks_def)

lemma add_result_lookup:
  "add_result cfg r st = Inr st' \<longrightarrow>
        (\<exists>old. (case map_of st (category r) of
                  Some found \<Rightarrow> old = found
                | None \<Rightarrow> \<exists>w. category_weight cfg (category r) = Inr w
                               \<and> old = new_CategoryResult (category r) w)
           \<and> map_of st' = (map_of st)(category r \<mapsto> tally r old))"
proof
  assume "add_result cfg r st = Inr st'"
  then obtain old where
    o: "case map_of st (category r) of
       Some found \<Rightarrow> old = found
     | None \<Rightarrow> \<exists>w. category_weight cfg (category r) = Inr w \<and> old = new_CategoryResult (category r) w"
    and s: "st' = AList.update (category r) (tally r old) st"
    by (rule add_result_cases)
  from s have "map_of st' = (map_of st)(category r \<mapsto> tally r old)"
    by (simp add: update_conv')
  with o show "\<exists>old. (case map_of st (category r) of
                  Some found \<Rightarrow> old = found
                | None \<Rightarrow> \<exists>w. category_weight cfg (category r) = Inr w
                               \<and> old = new_CategoryResult (category r) w)
           \<and> map_of st' = (map_of st)(category r \<mapsto> tally r old)"
    by blast
qed

lemma record_all_counters:
  "record_all cfg outs [] = Inr st \<and> map_of st c = Some cat \<longrightarrow>
        checks_passed cat = length (filter (\<lambda>r. category r = c \<and> passed r) outs)
        \<and> checks_failed cat =
            length (filter (\<lambda>r. category r = c \<and> \<not> passed r \<and> severity r = ''critical'') outs)
        \<and> checks_warned cat =
            length (filter (\<lambda>r. category r = c \<and> \<not> passed r \<and> severity r \<noteq> ''critical'') outs)
        \<and> results cat = filter (\<lambda>r. category r = c) outs"
proof
  assume a: "record_all cfg outs [] = Inr st \<and> map_of st c = Some cat"
  then have t: "tallied cfg outs st" by (simp add: record_all_from_empty)
  with a have cin: "c \<in> category ` set outs"
    by (auto simp: tallied_def split: if_splits)
  from tallied_lookup [OF t cin] a obtain w where c: "cat = tally_of w c outs" by auto
  show "checks_passed cat = length (filter (\<lambda>r. category r = c \<and> passed r) outs)
        \<and> checks_failed cat =
            length (filter (\<lambda>r. category r = c \<and> \<not> passed r \<and> severity r = ''critical'') outs)
        \<and> checks_warned cat =
            length (filter (\<lambda>r. category r = c \<and> \<not> passed r \<and> severity r \<noteq> ''critical'') outs)
        \<and> results cat = filter (\<lambda>r. category r = c) outs"
    unfolding c by (simp add: tally_of_def n_passed_def n_failed_def n_warned_def)
qed

lemma info_half_credit:
  "\<not> passed r \<and> severity r = ''info'' \<and> add_result cfg r [] = Inr st' \<longrightarrow>
        (\<exists>cat'. categories (score_results cfg st') = [(category r, cat')]
           \<and> checks_passed cat' = 0 \<and> checks_failed cat' = 0 \<and> checks_warned cat' = 1
           \<and> score cat' = 50)"
proof
  assume a: "\<not> passed r \<and> severity r = ''info'' \<and> add_result cfg r [] = Inr st'"
  then obtain w where s: "st' = [(category r, tally r (new_CategoryResult (category r) w))]"
    by (auto simp: add_result_def split: sum.splits)
  let ?cat = "scored (tally r (new_CategoryResult (category r) w))"
  have "categories (score_results cfg st') = [(category r, ?cat)]"
    by (simp add: s categories_score_results)
  moreover have "checks_passed ?cat = 0 \<and> checks_failed ?cat = 0 \<and> checks_warned ?cat = 1"
    using a by (simp add: tally_def new_CategoryResult_def Let_def)
  moreover have "score ?cat = 50"
    using a by (simp add: scored_score category_score_def total_checks_def tally_def
        new_CategoryResult_def Let_def)
  ultimately show "\<exists>cat'. categories (score_results cfg st') = [(category r, cat')]
           \<and> checks_passed cat' = 0 \<and> checks_failed cat' = 0 \<and> checks_warned cat' = 1
           \<and> score cat' = 50"
    by blast
qed

text \<open>
  C4. Recording an outcome appends it to its category and adds one to exactly one counter:
  \<^verbatim>\<open>checks_passed\<close> if it passed, \<^verbatim>\<open>checks_failed\<close> if it did not pass and its
  severity is \<^verbatim>\<open>critical\<close>, \<^verbatim>\<open>checks_warned\<close> otherwise; so an outcome of severity
  \<^verbatim>\<open>info\<close> that did not pass is counted as one of severity \<^verbatim>\<open>warning\<close> is. After
  a run the three counters of a category are the numbers of its outcomes of the three
  kinds. A category whose only outcome is an \<^verbatim>\<open>info\<close> outcome that did not pass
  scores 50: half credit.
\<close>

theorem add_result_tally_routing:
  "(passed r \<longrightarrow>
      tally r cat = cat\<lparr>results := results cat @ [r], checks_passed := checks_passed cat + 1\<rparr>)
   \<and> (\<not> passed r \<and> severity r = ''critical'' \<longrightarrow>
      tally r cat = cat\<lparr>results := results cat @ [r], checks_failed := checks_failed cat + 1\<rparr>)
   \<and> (\<not> passed r \<and> severity r \<noteq> ''critical'' \<longrightarrow>
      tally r cat = cat\<lparr>results := results cat @ [r], checks_warned := checks_warned cat + 1\<rparr>)
   \<and> (\<not> passed r \<and> (severity r = ''info'' \<or> severity r = ''warning'') \<longrightarrow>
      tally r cat = cat\<lparr>results := results cat @ [r], checks_warned := checks_warned cat + 1\<rparr>)
   \<and> total_checks (tally r cat) = total_checks cat + 1
   \<and> (add_result cfg r st = Inr st' \<longrightarrow>
        (\<exists>old. (case map_of st (category r) of
                  Some found \<Rightarrow> old = found
                | None \<Rightarrow> \<exists>w. category_weight cfg (category r) = Inr w
                               \<and> old = new_CategoryResult (category r) w)
           \<and> map_of st' = (map_of st)(category r \<mapsto> tally r old)))
   \<and> (record_all cfg outs [] = Inr st'' \<and> map_of st'' c = Some cat'' \<longrightarrow>
        checks_passed cat'' = length (filter (\<lambda>r. category r = c \<and> passed r) outs)
        \<and> checks_failed cat'' =
            length (filter (\<lambda>r. category r = c \<and> \<not> passed r \<and> severity r = ''critical'') outs)
        \<and> checks_warned cat'' =
            length (filter (\<lambda>r. category r = c \<and> \<not> passed r \<and> severity r \<noteq> ''critical'') outs)
        \<and> results cat'' = filter (\<lambda>r. category r = c) outs)
   \<and> (\<not> passed r \<and> severity r = ''info'' \<and> add_result cfg r [] = Inr st0 \<longrightarrow>
        (\<exists>cat'. categories (score_results cfg st0) = [(category r, cat')]
           \<and> checks_passed cat' = 0 \<and> checks_failed cat' = 0 \<and> checks_warned cat' = 1
           \<and> score cat' = 50))"
  apply (intro conjI)
         apply (rule tally_cases(1))
        apply (rule tally_cases(2))
       apply (rule tally_cases(3))
      apply (rule tally_cases(4))
     apply (rule tally_cases(5))
    apply (rule add_result_lookup)
   apply (rule record_all_counters)
  apply (rule info_half_credit)
  done

theorem add_result_tally_routing_witness:
  "tally (outcome ''git'' ''gitignore_exists'' True ''critical'') (new_CategoryResult ''git'' 10)
     = \<lparr>name = ''git'', weight = 10, checks_passed = 1, checks_failed = 0, checks_warned = 0,
        score = 0, results = [outcome ''git'' ''gitignore_exists'' True ''critical'']\<rparr>
   \<and> tally (outcome ''git'' ''gitignore_exists'' False ''critical'') (new_CategoryResult ''git'' 10)
     = \<lparr>name = ''git'', weight = 10, checks_passed = 0, checks_failed = 1, checks_warned = 0,
        score = 0, results = [outcome ''git'' ''gitignore_exists'' False ''critical'']\<rparr>
   \<and> tally (outcome ''git'' ''gitignore_has_dist'' False ''info'') (new_CategoryResult ''git'' 10)
     = \<lparr>name = ''git'', weight = 10, checks_passed = 0, checks_failed = 0, checks_warned = 1,
        score = 0, results = [outcome ''git'' ''gitignore_has_dist'' False ''info'']\<rparr>
   \<and> (\<exists>st' cat'. add_result quiet_config (outcome ''git'' ''gitignore_has_dist'' False ''info'') []
           = Inr st'
        \<and> map_of st' ''git''
            = Some (tally (outcome ''git'' ''gitignore_has_dist'' False ''info'')
                      (new_CategoryResult ''git'' 10))
        \<and> categories (score_results quiet_config st') = [(''git'', cat')]
        \<and> checks_warned cat' = 1 \<and> score cat' = 50)
   \<and> (\<exists>st cat. record_all quiet_config six_outcomes [] = Inr st
        \<and> map_of st ''git'' = Some cat
        \<and> checks_passed cat = 3 \<and> checks_failed cat = 1 \<and> checks_warned cat = 2)"
proof -
  let ?p = "outcome ''git'' ''gitignore_exists'' True ''critical''"
  let ?f = "outcome ''git'' ''gitignore_exists'' False ''critical''"
  let ?i = "outcome ''git'' ''gitignore_has_dist'' False ''info''"
  let ?new = "new_CategoryResult ''git'' 10"
  have "passed ?p" by (simp add: outcome_def)
  with add_result_tally_routing [where r = ?p and cat = ?new]
  have 1: "tally ?p ?new = ?new\<lparr>results := results ?new @ [?p], checks_passed := checks_passed ?new + 1\<rparr>"
    by blast
  have "\<not> passed ?f \<and> severity ?f = ''critical''" by (simp add: outcome_def)
  with add_result_tally_routing [where r = ?f and cat = ?new]
  have 2: "tally ?f ?new = ?new\<lparr>results := results ?new @ [?f], checks_failed := checks_failed ?new + 1\<rparr>"
    by blast
  have i: "\<not> passed ?i \<and> severity ?i = ''info''" and ic: "category ?i = ''git''"
    by (simp_all add: outcome_def)
  then have "\<not> passed ?i \<and> severity ?i \<noteq> ''critical''" by simp
  with add_result_tally_routing [where r = ?i and cat = ?new]
  have 3: "tally ?i ?new = ?new\<lparr>results := results ?new @ [?i], checks_warned := checks_warned ?new + 1\<rparr>"
    by blast
  obtain st' where 4: "add_result quiet_config ?i [] = Inr st'"
    by (simp add: add_result_def category_weight_def quiet_config_def)
  from add_result_tally_routing [where r = ?i and cfg = quiet_config and st = "[]" and st' = st'
      and ?st0.0 = st'] i 4
  obtain old cat' where 5:
    "case map_of [] (category ?i) of
       Some found \<Rightarrow> old = found
     | None \<Rightarrow> \<exists>w. category_weight quiet_config (category ?i) = Inr w
                    \<and> old = new_CategoryResult (category ?i) w"
    "map_of st' = (map_of [])(category ?i \<mapsto> tally ?i old)"
    "categories (score_results quiet_config st') = [(category ?i, cat')]"
    "checks_warned cat' = 1" "score cat' = 50"
    by blast
  from 5(1) have "old = ?new"
    by (simp add: ic category_weight_def quiet_config_def)
  with 5(2) have 6: "map_of st' ''git'' = Some (tally ?i ?new)" by (simp add: ic)
  obtain st where 7: "record_all quiet_config six_outcomes [] = Inr st"
    using record_six by blast
  from record_all_from_empty [OF 7] have t: "tallied quiet_config six_outcomes st" .
  have "''git'' \<in> category ` set six_outcomes" by (simp add: six_outcomes_def outcome_def)
  from tallied_lookup [OF t this] obtain w where 8: "map_of st ''git'' = Some (tally_of w ''git'' six_outcomes)"
    by blast
  from add_result_tally_routing [where cfg = quiet_config and outs = six_outcomes and st'' = st
      and c = "''git''" and cat'' = "tally_of w ''git'' six_outcomes"] 7 8
  have 9: "checks_passed (tally_of w ''git'' six_outcomes) = 3
         \<and> checks_failed (tally_of w ''git'' six_outcomes) = 1
         \<and> checks_warned (tally_of w ''git'' six_outcomes) = 2"
    by (simp add: six_outcomes_def outcome_def)
  have a: "tally ?p ?new = \<lparr>name = ''git'', weight = 10, checks_passed = 1, checks_failed = 0,
        checks_warned = 0, score = 0, results = [?p]\<rparr>"
    unfolding 1 by (simp add: new_CategoryResult_def)
  have b: "tally ?f ?new = \<lparr>name = ''git'', weight = 10, checks_passed = 0, checks_failed = 1,
        checks_warned = 0, score = 0, results = [?f]\<rparr>"
    unfolding 2 by (simp add: new_CategoryResult_def)
  have c: "tally ?i ?new = \<lparr>name = ''git'', weight = 10, checks_passed = 0, checks_failed = 0,
        checks_warned = 1, score = 0, results = [?i]\<rparr>"
    unfolding 3 by (simp add: new_CategoryResult_def)
  from 4 6 5(3,4,5) ic have d: "\<exists>st' cat'. add_result quiet_config ?i [] = Inr st'
        \<and> map_of st' ''git'' = Some (tally ?i ?new)
        \<and> categories (score_results quiet_config st') = [(''git'', cat')]
        \<and> checks_warned cat' = 1 \<and> score cat' = 50"
    by auto
  from 7 8 9 have e: "\<exists>st cat. record_all quiet_config six_outcomes [] = Inr st
        \<and> map_of st ''git'' = Some cat
        \<and> checks_passed cat = 3 \<and> checks_failed cat = 1 \<and> checks_warned cat = 2"
    by blast
  from a b c d e show ?thesis by (intro conjI)
qed

subsection \<open>Categories without outcomes\<close>

text \<open>
  C5. A category for which a run records no outcome has no entry in \<^verbatim>\<open>self.results\<close>
  and is absent from the report: so is every category whose \<^verbatim>\<open>enabled\<close> flag is false,
  and every category of the report has at least one outcome. Replacing the entry of an
  absent category in \<^verbatim>\<open>validation_categories\<close>, its weight included, leaves the whole
  report of the run, the overall score with it, as it was. In any results dict an entry
  without a check adds neither score nor weight: the overall score is the same without the
  entry, and the same whatever its weight.
\<close>

theorem unrecorded_category_excluded:
  "(validate_all cfg snap = Inr report \<and> \<not> category_enabled cfg c \<longrightarrow>
      c \<notin> fst ` set (categories report))
   \<and> (validate_all cfg snap = Inr report \<and> (c, cat) \<in> set (categories report) \<longrightarrow>
      results cat \<noteq> [] \<and> 0 < total_checks cat \<and> category_enabled cfg c)
   \<and> (validate_all cfg snap = Inr report \<and> c \<notin> fst ` set (categories report)
        \<and> validation_categories cfg = Some (Table vc) \<longrightarrow>
      validate_all (cfg\<lparr>validation_categories := Some (Table (vc(c \<mapsto> entry)))\<rparr>) snap = Inr report)
   \<and> (record_all cfg outs [] = Inr st \<and> c \<notin> category ` set outs \<longrightarrow>
      map_of (categories (score_results cfg st)) c = None
      \<and> c \<notin> fst ` set (categories (score_results cfg st)))
   \<and> (record_all cfg outs [] = Inr st \<and> c \<notin> category ` set outs
        \<and> validation_categories cfg = Some (Table vc) \<longrightarrow>
      record_all (cfg\<lparr>validation_categories := Some (Table (vc(c \<mapsto> entry)))\<rparr>) outs [] = Inr st
      \<and> score_results (cfg\<lparr>validation_categories := Some (Table (vc(c \<mapsto> entry)))\<rparr>) st
          = score_results cfg st)
   \<and> (total_checks r = 0 \<longrightarrow>
      overall_score (score_results cfg (st1 @ (c, r) # st2))
        = overall_score (score_results cfg (st1 @ st2))
      \<and> overall_score (score_results cfg (st1 @ (c, r\<lparr>weight := w'\<rparr>) # st2))
        = overall_score (score_results cfg (st1 @ (c, r) # st2)))"
  apply (intro conjI)
       apply (rule run_disabled_absent)
      apply (rule run_category_present)
     apply (rule run_weight_irrelevant)
    apply (rule unrecorded_category_absent)
   apply (rule unrecorded_weight_irrelevant)
  apply (rule empty_category_skipped)
  done

theorem unrecorded_category_excluded_witness:
  "(\<exists>report cat. validate_all hooks_only_config empty_project = Inr report
      \<and> \<not> category_enabled hooks_only_config ''git''
      \<and> ''git'' \<notin> fst ` set (categories report)
      \<and> (''hooks'', cat) \<in> set (categories report) \<and> results cat \<noteq> []
      \<and> validation_categories hooks_only_config = Some (Table Map.empty)
      \<and> validate_all (hooks_only_config\<lparr>validation_categories :=
                         Some (Table (Map.empty(''git'' \<mapsto> Object [''weight'' \<mapsto> 99])))\<rparr>) empty_project
          = Inr report)
   \<and> (\<exists>st. record_all quiet_config six_outcomes [] = Inr st
     \<and> ''hooks'' \<notin> category ` set six_outcomes
     \<and> validation_categories quiet_config = Some (Table Map.empty)
     \<and> ''hooks'' \<notin> fst ` set (categories (score_results quiet_config st))
     \<and> record_all (quiet_config\<lparr>validation_categories :=
                       Some (Table (Map.empty(''hooks'' \<mapsto> Object [''weight'' \<mapsto> 99])))\<rparr>) six_outcomes [] = Inr st
     \<and> score_results (quiet_config\<lparr>validation_categories :=
                       Some (Table (Map.empty(''hooks'' \<mapsto> Object [''weight'' \<mapsto> 99])))\<rparr>) st
         = score_results quiet_config st
     \<and> total_checks (new_CategoryResult ''hooks'' 10) = 0
     \<and> overall_score (score_results quiet_config (st @ (''hooks'', (new_CategoryResult ''hooks'' 10)\<lparr>weight := 99\<rparr>) # []))
         = overall_score (score_results quiet_config (st @ [])))"
proof -
  let ?hooks = "\<lparr>name = ''hooks'', weight = 10, checks_passed = 0, checks_failed = 1,
               checks_warned = 1, score = 25,
               results =
                 [\<lparr>category = ''hooks'', check_name = ''lefthook_config_exists'', passed = False,
                   severity = ''critical'', message = ''lefthook.yml configuration file'',
                   details = Some ''Not found''\<rparr>,
                  \<lparr>category = ''hooks'', check_name = ''claude_settings_exists'', passed = False,
                   severity = ''warning'', message = ''Claude Code settings.json'',
                   details = Some ''Not found''\<rparr>]\<rparr>"
  let ?report = "\<lparr>overall_score = 25, grade = ''F'', categories = [(''hooks'', ?hooks)]\<rparr>"
  have run: "validate_all hooks_only_config empty_project = Inr ?report"
    by (rule hooks_only_run)
  have off: "\<not> category_enabled hooks_only_config ''git''"
    by (simp add: category_enabled_def hooks_only_config_def quiet_config_def)
  have hv: "validation_categories hooks_only_config = Some (Table Map.empty)"
    by (simp add: hooks_only_config_def quiet_config_def)
  have mem: "(''hooks'', ?hooks) \<in> set (categories ?report)" by simp
  note run_th = unrecorded_category_excluded [where cfg = hooks_only_config and snap = empty_project
      and report = ?report and vc = Map.empty and entry = "Object [''weight'' \<mapsto> 99]"]
  from run_th [where c = "''git''"] run off
  have absent: "''git'' \<notin> fst ` set (categories ?report)" by blast
  from run_th [where c = "''hooks''" and cat = ?hooks] run mem
  have nonempty: "results ?hooks \<noteq> []" by blast
  from run_th [where c = "''git''"] run absent hv
  have same: "validate_all (hooks_only_config\<lparr>validation_categories :=
                         Some (Table (Map.empty(''git'' \<mapsto> Object [''weight'' \<mapsto> 99])))\<rparr>) empty_project
          = Inr ?report" by blast
  from run off absent mem nonempty hv same
  have first: "\<exists>report cat. validate_all hooks_only_config empty_project = Inr report
      \<and> \<not> category_enabled hooks_only_config ''git''
      \<and> ''git'' \<notin> fst ` set (categories report)
      \<and> (''hooks'', cat) \<in> set (categories report) \<and> results cat \<noteq> []
      \<and> validation_categories hooks_only_config = Some (Table Map.empty)
      \<and> validate_all (hooks_only_config\<lparr>validation_categories :=
                         Some (Table (Map.empty(''git'' \<mapsto> Object [''weight'' \<mapsto> 99])))\<rparr>) empty_project
          = Inr report"
    by (intro exI [of _ ?report] exI [of _ ?hooks] conjI)
  obtain st where st: "record_all quiet_config six_outcomes [] = Inr st"
    using record_six by blast
  have n: "''hooks'' \<notin> category ` set six_outcomes"
    by (simp add: six_outcomes_def outcome_def)
  have v: "validation_categories quiet_config = Some (Table Map.empty)"
    by (simp add: quiet_config_def)
  have z: "total_checks (new_CategoryResult ''hooks'' 10) = 0"
    by (simp add: new_CategoryResult_def total_checks_def)
  note th = unrecorded_category_excluded [where cfg = quiet_config and outs = six_outcomes
      and st = st and c = "''hooks''" and vc = Map.empty and entry = "Object [''weight'' \<mapsto> 99]"
      and r = "new_CategoryResult ''hooks'' 10" and ?st1.0 = st and ?st2.0 = "[]" and w' = 99]
  from th st n v z have second: "\<exists>st. record_all quiet_config six_outcomes [] = Inr st
     \<and> ''hooks'' \<notin> category ` set six_outcomes
     \<and> validation_categories quiet_config = Some (Table Map.empty)
     \<and> ''hooks'' \<notin> fst ` set (categories (score_results quiet_config st))
     \<and> record_all (quiet_config\<lparr>validation_categories :=
                       Some (Table (Map.empty(''hooks'' \<mapsto> Object [''weight'' \<mapsto> 99])))\<rparr>) six_outcomes [] = Inr st
     \<and> score_results (quiet_config\<lparr>validation_categories :=
                       Some (Table (Map.empty(''hooks'' \<mapsto> Object [''weight'' \<mapsto> 99])))\<rparr>) st
         = score_results quiet_config st
     \<and> total_checks (new_CategoryResult ''hooks'' 10) = 0
     \<and> overall_score (score_results quiet_config (st @ (''hooks'', (new_CategoryResult ''hooks'' 10)\<lparr>weight := 99\<rparr>) # []))
         = overall_score (score_results quiet_config (st @ []))"
    by auto
  from first second show ?thesis by (rule conjI)
qed

subsection \<open>A missing weight\<close>

lemma default_weight:
  "validation_categories cfg = Some (Table vc) \<and> weight_missing vc c
   \<longrightarrow> category_weight cfg c = Inr 10"
  by (auto simp: category_weight_def weight_missing_def
      split: option.splits category_entry.splits)

lemma weight_written_out:
  assumes "validation_categories cfg = Some (Table vc)" and "weight_missing vc c"
    and "entry ''weight'' = Some 10"
  shows "category_weight (cfg\<lparr>validation_categories := Some (Table (vc(c \<mapsto> Object entry)))\<rparr>) c'
           = category_weight cfg c'"
proof (cases "c' = c")
  case True
  from assms(1,2) have "category_weight cfg c = Inr 10" using default_weight by blast
  moreover from assms(3)
  have "category_weight (cfg\<lparr>validation_categories := Some (Table (vc(c \<mapsto> Object entry)))\<rparr>) c
          = Inr 10"
    by (simp add: category_weight_def)
  ultimately show ?thesis by (simp add: True)
next
  case False
  with assms(1) show ?thesis by (simp add: category_weight_other)
qed

lemma replay_weight_cong:
  assumes "\<And>r. r \<in> set outs \<Longrightarrow>
             category_weight cfg' (category r) = category_weight cfg (category r)"
  shows "replay cfg' outs err st = replay cfg outs err st"
proof -
  have "record_all cfg' outs st = record_all cfg outs st"
    using assms by (rule record_all_weight_cong)
  then show ?thesis by (simp add: replay_def)
qed

lemma default_weight_run:
  "validation_categories cfg = Some (Table vc) \<and> weight_missing vc c
     \<and> entry ''weight'' = Some 10
   \<longrightarrow> validate_all (cfg\<lparr>validation_categories := Some (Table (vc(c \<mapsto> Object entry)))\<rparr>) snap
         = validate_all cfg snap"
proof
  assume a: "validation_categories cfg = Some (Table vc) \<and> weight_missing vc c
     \<and> entry ''weight'' = Some 10"
  let ?cfg' = "cfg\<lparr>validation_categories := Some (Table (vc(c \<mapsto> Object entry)))\<rparr>"
  from run_validators_replay [of cfg snap] obtain outs err where
    r: "\<And>vc. run_validators (cfg\<lparr>validation_categories := vc\<rparr>) snap
              = replay (cfg\<lparr>validation_categories := vc\<rparr>) outs err []"
    by blast
  from r [of "validation_categories cfg"]
  have 1: "run_validators cfg snap = replay cfg outs err []" by (simp only: same_config)
  have 2: "run_validators ?cfg' snap = replay ?cfg' outs err []" by (rule r)
  have "replay ?cfg' outs err [] = replay cfg outs err []"
    by (rule replay_weight_cong) (use a in \<open>simp add: weight_written_out\<close>)
  with 1 2 have "run_validators ?cfg' snap = run_validators cfg snap" by simp
  moreover have "\<And>st. score_results ?cfg' st = score_results cfg st"
    by (rule score_results_grading_cong) simp
  ultimately show "validate_all ?cfg' snap = validate_all cfg snap"
    by (simp add: validate_all_def split: sum.splits)
qed

lemma default_weight_reported:
  "validate_all cfg snap = Inr report \<and> (c, cat) \<in> set (categories report)
     \<and> validation_categories cfg = Some (Table vc) \<and> weight_missing vc c
   \<longrightarrow> weight cat = 10"
proof
  assume a: "validate_all cfg snap = Inr report \<and> (c, cat) \<in> set (categories report)
     \<and> validation_categories cfg = Some (Table vc) \<and> weight_missing vc c"
  then obtain outs st where r: "record_all cfg outs [] = Inr st"
    and rep: "report = score_results cfg st"
    using validate_all_recorded by metis
  from r have t: "tallied cfg outs st" by (rule record_all_from_empty)
  from a rep obtain x where m: "(c, x) \<in> set st" and cat: "cat = scored x"
    by (auto simp: categories_score_results)
  from t have "distinct (map fst st)" by (simp add: tallied_def)
  with m have lk: "map_of st c = Some x" by simp
  with t have cin: "c \<in> category ` set outs"
    by (auto simp: tallied_def split: if_splits)
  from a have w: "category_weight cfg c = Inr 10" using default_weight by blast
  from tallied_lookup [OF t cin] w lk have "x = tally_of 10 c outs" by auto
  with cat show "weight cat = 10" by (simp add: tally_of_def)
qed

text \<open>Which outcome ends a sequence of recordings, and with which exception.\<close>

lemma record_all_Inl:
  "record_all cfg outs st = Inl e \<Longrightarrow> \<exists>r \<in> set outs. category_weight cfg (category r) = Inl e"
proof (induction outs arbitrary: st)
  case Nil
  then show ?case by simp
next
  case (Cons r outs)
  show ?case
  proof (cases "add_result cfg r st")
    case (Inl e')
    with Cons.prems have "e' = e" by simp
    with Inl have "category_weight cfg (category r) = Inl e"
      by (auto simp: add_result_def split: option.splits sum.splits)
    then show ?thesis by simp
  next
    case (Inr st1)
    with Cons.prems have "record_all cfg outs st1 = Inl e" by simp
    from Cons.IH [OF this] show ?thesis by simp
  qed
qed

lemma category_weight_Inl:
  assumes "category_weight cfg c = Inl e"
  shows "(validation_categories cfg = None \<and> e = KeyError ''validation_categories'')
     \<or> (e = AttributeError ''get''
         \<and> (validation_categories cfg = Some NotTable
            \<or> (\<exists>vc. validation_categories cfg = Some (Table vc) \<and> vc c = Some NotObject)))"
proof (cases "validation_categories cfg")
  case None
  with assms show ?thesis by (simp add: category_weight_def)
next
  case (Some t)
  show ?thesis
  proof (cases t)
    case NotTable
    with Some assms show ?thesis by (simp add: category_weight_def)
  next
    case (Table vc)
    show ?thesis
    proof (cases "vc c")
      case None
      with Some Table assms show ?thesis by (simp add: category_weight_def)
    next
      case (Some entry)
      with \<open>validation_categories cfg = Some t\<close> Table assms show ?thesis
        by (cases entry) (simp_all add: category_weight_def)
    qed
  qed
qed

lemma config_error_cause:
  "validate_all cfg snap = Inl e \<and> config_error e \<longrightarrow>
     (validation_categories cfg = None \<and> e = KeyError ''validation_categories'')
     \<or> (e = AttributeError ''get''
         \<and> (validation_categories cfg = Some NotTable
            \<or> (\<exists>vc c. validation_categories cfg = Some (Table vc) \<and> vc c = Some NotObject
                  \<and> category_enabled cfg c)))"
proof
  assume a: "validate_all cfg snap = Inl e \<and> config_error e"
  from run_validators_replay [of cfg snap] obtain outs err where
    p: "list_all (run_outcome cfg snap) outs" and
    ne: "case err of None \<Rightarrow> True | Some e \<Rightarrow> \<not> config_error e" and
    r: "\<And>vc. run_validators (cfg\<lparr>validation_categories := vc\<rparr>) snap
              = replay (cfg\<lparr>validation_categories := vc\<rparr>) outs err []"
    by blast
  from r [of "validation_categories cfg"]
  have "run_validators cfg snap = replay cfg outs err []" by (simp only: same_config)
  moreover from a have "run_validators cfg snap = Inl e"
    by (auto simp: validate_all_def split: sum.splits)
  ultimately have "replay cfg outs err [] = Inl e" by simp
  with a ne have "record_all cfg outs [] = Inl e"
    by (auto simp: replay_def and_then_def split: sum.splits option.splits)
  from record_all_Inl [OF this] obtain x where x: "x \<in> set outs"
    and w: "category_weight cfg (category x) = Inl e" by blast
  from p x have "category_enabled cfg (category x)"
    by (auto simp: list_all_iff run_outcome_def)
  with category_weight_Inl [OF w]
  show "(validation_categories cfg = None \<and> e = KeyError ''validation_categories'')
     \<or> (e = AttributeError ''get''
         \<and> (validation_categories cfg = Some NotTable
            \<or> (\<exists>vc c. validation_categories cfg = Some (Table vc) \<and> vc c = Some NotObject
                  \<and> category_enabled cfg c)))"
    by blast
qed

text \<open>
  The run of \<open>cfg\<close> and the run with an empty object under
  \<^verbatim>\<open>validation_categories\<close> record the same outcomes when the latter returns.
\<close>

lemma run_against_empty_table:
  assumes "validate_all (cfg\<lparr>validation_categories := Some (Table Map.empty)\<rparr>) snap = Inr report"
  obtains outs where "run_validators cfg snap = record_all cfg outs []"
    and "fst ` set (categories report) = category ` set outs"
proof -
  let ?cfg0 = "cfg\<lparr>validation_categories := Some (Table Map.empty)\<rparr>"
  from validate_all_recorded [OF assms] obtain outs st where
    r: "record_all ?cfg0 outs [] = Inr st" and rep: "report = score_results ?cfg0 st" and
    run: "\<And>vc. run_validators (?cfg0\<lparr>validation_categories := vc\<rparr>) snap
            = record_all (?cfg0\<lparr>validation_categories := vc\<rparr>) outs []"
    by blast
  have same: "?cfg0\<lparr>validation_categories := validation_categories cfg\<rparr> = cfg" by simp
  from run [of "validation_categories cfg"]
  have 1: "run_validators cfg snap = record_all cfg outs []" by (simp only: same)
  have "fst ` set (categories (score_results ?cfg0 st)) = fst ` set st"
    by (force simp: categories_score_results)
  with tallied_keys [OF record_all_from_empty [OF r]] rep
  have 2: "fst ` set (categories report) = category ` set outs" by simp
  from 1 2 show ?thesis by (rule that)
qed

lemma missing_table_run:
  "validation_categories cfg = None
     \<and> validate_all (cfg\<lparr>validation_categories := Some (Table Map.empty)\<rparr>) snap = Inr report
     \<and> categories report \<noteq> []
   \<longrightarrow> validate_all cfg snap = Inl (KeyError ''validation_categories'')"
proof
  assume a: "validation_categories cfg = None
     \<and> validate_all (cfg\<lparr>validation_categories := Some (Table Map.empty)\<rparr>) snap = Inr report
     \<and> categories report \<noteq> []"
  then obtain outs where 1: "run_validators cfg snap = record_all cfg outs []"
    and 2: "fst ` set (categories report) = category ` set outs"
    using run_against_empty_table by metis
  from a 2 have "outs \<noteq> []" by auto
  then obtain r rest where "outs = r # rest" by (cases outs) auto
  with a have "record_all cfg outs [] = Inl (KeyError ''validation_categories'')"
    by (simp add: add_result_def category_weight_def)
  with 1 show "validate_all cfg snap = Inl (KeyError ''validation_categories'')"
    by (simp add: validate_all_def)
qed

lemma entry_not_object_run:
  "validation_categories cfg = Some (Table vc) \<and> vc c = Some NotObject
     \<and> validate_all (cfg\<lparr>validation_categories := Some (Table Map.empty)\<rparr>) snap = Inr report
     \<and> c \<in> fst ` set (categories report)
   \<longrightarrow> validate_all cfg snap = Inl (AttributeError ''get'')"
proof
  assume a: "validation_categories cfg = Some (Table vc) \<and> vc c = Some NotObject
     \<and> validate_all (cfg\<lparr>validation_categories := Some (Table Map.empty)\<rparr>) snap = Inr report
     \<and> c \<in> fst ` set (categories report)"
  then obtain outs where 1: "run_validators cfg snap = record_all cfg outs []"
    and 2: "fst ` set (categories report) = category ` set outs"
    using run_against_empty_table by metis
  from a 2 have cin: "c \<in> category ` set outs" by simp
  from a have w: "category_weight cfg c = Inl (AttributeError ''get'')"
    by (simp add: category_weight_def)
  have "record_all cfg outs [] = Inl (AttributeError ''get'')"
  proof (cases "record_all cfg outs []")
    case (Inl e)
    from record_all_Inl [OF Inl] obtain x :: ValidationResult
      where "category_weight cfg (category x) = Inl e" by auto
    from category_weight_Inl [OF this] a have "e = AttributeError ''get''" by auto
    with Inl show ?thesis by simp
  next
    case (Inr st)
    from tallied_lookup [OF record_all_from_empty [OF Inr] cin] w show ?thesis by simp
  qed
  with 1 show "validate_all cfg snap = Inl (AttributeError ''get'')"
    by (simp add: validate_all_def)
qed

text \<open>
  C6 (as amended). Let \<^verbatim>\<open>validation_categories\<close> be an object and let a category have no
  weight entry in it: no entry for the category, or an object without the key
  \<^verbatim>\<open>weight\<close>. Then the weight read for the category is 10; in every report that a run
  returns the category, if it is there, carries the weight 10; and the run ends, with a
  report or with an exception, exactly as the run in which the weight 10 is written into
  the entry. A run ends with a configuration error only when \<^verbatim>\<open>validation_categories\<close>
  is missing (\<^verbatim>\<open>KeyError\<close>), or is not an object, or holds for an enabled category
  something that is not an object (\<^verbatim>\<open>AttributeError\<close>). It does so at the first
  outcome recorded, after evaluation has begun: the run without
  \<^verbatim>\<open>validation_categories\<close> ends with \<^verbatim>\<open>KeyError\<close> whenever the run with an empty
  object there reports a category, and the run with a non-object under a category ends
  with \<^verbatim>\<open>AttributeError\<close> whenever the run with an empty object reports that category.
\<close>

theorem missing_weight_defaults_to_10:
  "(validation_categories cfg = Some (Table vc) \<and> weight_missing vc c
    \<longrightarrow> category_weight cfg c = Inr 10)
   \<and> (validate_all cfg snap = Inr report \<and> (c, cat) \<in> set (categories report)
      \<and> validation_categories cfg = Some (Table vc) \<and> weight_missing vc c
    \<longrightarrow> weight cat = 10)
   \<and> (validation_categories cfg = Some (Table vc) \<and> weight_missing vc c
      \<and> entry ''weight'' = Some 10
    \<longrightarrow> validate_all (cfg\<lparr>validation_categories := Some (Table (vc(c \<mapsto> Object entry)))\<rparr>) snap
          = validate_all cfg snap)
   \<and> (validate_all cfg snap = Inl e \<and> config_error e \<longrightarrow>
        (validation_categories cfg = None \<and> e = KeyError ''validation_categories'')
        \<or> (e = AttributeError ''get''
            \<and> (validation_categories cfg = Some NotTable
               \<or> (\<exists>vc c. validation_categories cfg = Some (Table vc) \<and> vc c = Some NotObject
                     \<and> category_enabled cfg c))))
   \<and> (validation_categories cfg = None
      \<and> validate_all (cfg\<lparr>validation_categories := Some (Table Map.empty)\<rparr>) snap = Inr report
      \<and> categories report \<noteq> []
    \<longrightarrow> validate_all cfg snap = Inl (KeyError ''validation_categories''))
   \<and> (validation_categories cfg = Some (Table vc) \<and> vc c = Some NotObject
      \<and> validate_all (cfg\<lparr>validation_categories := Some (Table Map.empty)\<rparr>) snap = Inr report
      \<and> c \<in> fst ` set (categories report)
    \<longrightarrow> validate_all cfg snap = Inl (AttributeError ''get''))"
  apply (intro conjI)
       apply (rule default_weight)
      apply (rule default_weight_reported)
     apply (rule default_weight_run)
    apply (rule config_error_cause)
   apply (rule missing_table_run)
  apply (rule entry_not_object_run)
  done

text \<open>
  The claim as worded fails: with the hooks evaluator on, no weight entry anywhere and an
  empty project, the run ends with a report, the category weighted 10.
\<close>

theorem missing_weight_counterexample:
  "validate_all hooks_only_config empty_project =
     Inr \<lparr>overall_score = 25, grade = ''F'',
          categories =
            [(''hooks'',
              \<lparr>name = ''hooks'', weight = 10, checks_passed = 0, checks_failed = 1,
               checks_warned = 1, score = 25,
               results =
                 [\<lparr>category = ''hooks'', check_name = ''lefthook_config_exists'', passed = False,
                   severity = ''critical'', message = ''lefthook.yml configuration file'',
                   details = Some ''Not found''\<rparr>,
                  \<lparr>category = ''hooks'', check_name = ''claude_settings_exists'', passed = False,
                   severity = ''warning'', message = ''Claude Code settings.json'',
                   details = Some ''Not found''\<rparr>]\<rparr>)]\<rparr>
   \<and> validation_categories hooks_only_config = Some (Table Map.empty)"
  by (simp add: validate_all_def run_validators_def validate_hooks_def validate_documentation_def
      validate_testing_def validate_quality_gates_def validate_git_def validate_security_def
      validate_naming_conventions_def validate_migrations_def hooks_only_config_def
      quiet_config_def empty_project_def file_exists_def and_then_def add_result_def
      category_weight_def tally_def new_CategoryResult_def Let_def score_results_def
      total_checks_def standard_bands_def off_tool_def)

theorem missing_weight_defaults_to_10_witness:
  "category_weight hooks_only_config ''hooks'' = Inr 10
   \<and> (\<exists>report cat. validate_all hooks_only_config empty_project = Inr report
         \<and> (''hooks'', cat) \<in> set (categories report) \<and> weight cat = 10)
   \<and> validate_all
        (hooks_only_config\<lparr>validation_categories :=
           Some (Table (Map.empty(''hooks'' \<mapsto> Object [''weight'' \<mapsto> 10])))\<rparr>) empty_project
       = validate_all hooks_only_config empty_project
   \<and> validate_all (hooks_only_config\<lparr>validation_categories := None\<rparr>) empty_project
       = Inl (KeyError ''validation_categories'')
   \<and> config_error (KeyError ''validation_categories'')
   \<and> validate_all
        (hooks_only_config\<lparr>validation_categories :=
           Some (Table (Map.empty(''hooks'' \<mapsto> NotObject)))\<rparr>) empty_project
       = Inl (AttributeError ''get'')"
proof -
  let ?report = "\<lparr>overall_score = 25, grade = ''F'',
          categories =
            [(''hooks'',
              \<lparr>name = ''hooks'', weight = 10, checks_passed = 0, checks_failed = 1,
               checks_warned = 1, score = 25,
               results =
                 [\<lparr>category = ''hooks'', check_name = ''lefthook_config_exists'', passed = False,
                   severity = ''critical'', message = ''lefthook.yml configuration file'',
                   details = Some ''Not found''\<rparr>,
                  \<lparr>category = ''hooks'', check_name = ''claude_settings_exists'', passed = False,
                   severity = ''warning'', message = ''Claude Code settings.json'',
                   details = Some ''Not found''\<rparr>]\<rparr>)]\<rparr>"
  let ?cat = "snd (hd (categories ?report))"
  let ?none = "hooks_only_config\<lparr>validation_categories := None\<rparr>"
  let ?bad = "hooks_only_config\<lparr>validation_categories :=
                Some (Table (Map.empty(''hooks'' \<mapsto> NotObject)))\<rparr>"
  have v: "validation_categories hooks_only_config = Some (Table Map.empty)"
    by (simp add: hooks_only_config_def quiet_config_def)
  have m: "weight_missing Map.empty ''hooks''" by (simp add: weight_missing_def)
  have run: "validate_all hooks_only_config empty_project = Inr ?report" by (rule hooks_only_run)
  have cin: "(''hooks'', ?cat) \<in> set (categories ?report)" by simp
  have e: "[''weight'' \<mapsto> (10::int)] ''weight'' = Some 10" by simp
  have "?none\<lparr>validation_categories := Some (Table Map.empty)\<rparr> = hooks_only_config"
    by (simp add: hooks_only_config_def quiet_config_def)
  then have run0:
    "validate_all (?none\<lparr>validation_categories := Some (Table Map.empty)\<rparr>) empty_project
       = Inr ?report"
    by (simp only: run)
  have "?bad\<lparr>validation_categories := Some (Table Map.empty)\<rparr> = hooks_only_config"
    by (simp add: hooks_only_config_def quiet_config_def)
  then have run1:
    "validate_all (?bad\<lparr>validation_categories := Some (Table Map.empty)\<rparr>) empty_project
       = Inr ?report"
    by (simp only: run)
  have ne: "categories ?report \<noteq> []" by simp
  have cin': "''hooks'' \<in> fst ` set (categories ?report)" by simp
  note th = missing_weight_defaults_to_10 [where cfg = hooks_only_config and vc = Map.empty
      and c = "''hooks''" and snap = empty_project and report = ?report and cat = ?cat
      and entry = "[''weight'' \<mapsto> 10]"]
  note th_none = missing_weight_defaults_to_10 [where cfg = ?none and snap = empty_project
      and report = ?report]
  note th_bad = missing_weight_defaults_to_10 [where cfg = ?bad and snap = empty_project
      and report = ?report and vc = "Map.empty(''hooks'' \<mapsto> NotObject)" and c = "''hooks''"]
  have 1: "category_weight hooks_only_config ''hooks'' = Inr 10"
    by (rule th [THEN conjunct1, THEN mp]) (intro conjI v m)
  have 2: "weight ?cat = 10"
    by (rule th [THEN conjunct2, THEN conjunct1, THEN mp]) (intro conjI run cin v m)
  have 3: "validate_all
        (hooks_only_config\<lparr>validation_categories :=
           Some (Table (Map.empty(''hooks'' \<mapsto> Object [''weight'' \<mapsto> 10])))\<rparr>) empty_project
       = validate_all hooks_only_config empty_project"
    by (rule th [THEN conjunct2, THEN conjunct2, THEN conjunct1, THEN mp]) (intro conjI v m e)
  have vn: "validation_categories ?none = None" by simp
  have 4: "validate_all ?none empty_project = Inl (KeyError ''validation_categories'')"
    by (rule th_none [THEN conjunct2, THEN conjunct2, THEN conjunct2, THEN conjunct2,
          THEN conjunct1, THEN mp]) (intro conjI vn run0 ne)
  have 5: "config_error (KeyError ''validation_categories'')" by simp
  have vb: "validation_categories ?bad = Some (Table (Map.empty(''hooks'' \<mapsto> NotObject)))"
    by simp
  have nb: "(Map.empty(''hooks'' \<mapsto> NotObject)) ''hooks'' = Some NotObject" by simp
  have 6: "validate_all ?bad empty_project = Inl (AttributeError ''get'')"
    by (rule th_bad [THEN conjunct2, THEN conjunct2, THEN conjunct2, THEN conjunct2,
          THEN conjunct2, THEN mp]) (intro conjI vb nb run1 cin')
  have ex: "\<exists>report cat. validate_all hooks_only_config empty_project = Inr report
         \<and> (''hooks'', cat) \<in> set (categories report) \<and> weight cat = 10"
    by (rule exI [of _ ?report], rule exI [of _ ?cat], intro conjI run cin 2)
  show ?thesis by (intro conjI 1 ex 3 4 5 6)
qed

subsection \<open>Prohibition checks\<close>












subsection \<open>Check names and severities\<close>

text \<open>
  C8 (as amended). In the report of a run every outcome stored under a category carries
  that category, and its severity is the one the evaluators write next to its check name:
  two outcomes of one category with the same check name have the same severity. A check
  name may occur more than once in a category: the secret scan records
  \<^verbatim>\<open>no_hardcoded_secrets\<close> once for every file that holds a pattern.
\<close>

theorem check_name_fixes_severity:
  "(validate_all cfg snap = Inr report \<and> (c, cat) \<in> set (categories report)
      \<and> r1 \<in> set (results cat) \<and> r2 \<in> set (results cat) \<and> check_name r1 = check_name r2
    \<longrightarrow> severity r1 = severity r2 \<and> category r1 = c \<and> category r2 = c)
   \<and> (validate_all cfg snap = Inr report \<and> (c, cat) \<in> set (categories report)
      \<and> r1 \<in> set (results cat)
    \<longrightarrow> severity r1 = expected_severity c (check_name r1))"
proof -
  have sev: "severity r = expected_severity c (check_name r) \<and> category r = c"
    if a: "validate_all cfg snap = Inr report" "(c, cat) \<in> set (categories report)"
      "r \<in> set (results cat)" for r
  proof -
    from a(1) obtain outs st where p: "list_all (run_outcome cfg snap) outs"
      and rec: "record_all cfg outs [] = Inr st" and rep: "report = score_results cfg st"
      using validate_all_recorded by metis
    from a(2) rep have "(c, cat) \<in> set (categories (score_results cfg st))" by simp
    from report_entry [OF rec this] obtain w where cat: "cat = scored (tally_of w c outs)"
      by blast
    from a(3) have m: "r \<in> set outs" "category r = c" by (simp_all add: cat tally_of_def)
    with p show ?thesis by (auto simp: list_all_iff run_outcome_def)
  qed
  have 1: "validate_all cfg snap = Inr report \<and> (c, cat) \<in> set (categories report)
      \<and> r1 \<in> set (results cat) \<and> r2 \<in> set (results cat) \<and> check_name r1 = check_name r2
    \<longrightarrow> severity r1 = severity r2 \<and> category r1 = c \<and> category r2 = c"
  proof
    assume a: "validate_all cfg snap = Inr report \<and> (c, cat) \<in> set (categories report)
      \<and> r1 \<in> set (results cat) \<and> r2 \<in> set (results cat) \<and> check_name r1 = check_name r2"
    with sev [of r1] sev [of r2]
    show "severity r1 = severity r2 \<and> category r1 = c \<and> category r2 = c" by simp
  qed
  have 2: "validate_all cfg snap = Inr report \<and> (c, cat) \<in> set (categories report)
      \<and> r1 \<in> set (results cat)
    \<longrightarrow> severity r1 = expected_severity c (check_name r1)"
    using sev [of r1] by blast
  from 1 2 show ?thesis by (rule conjI)
qed

text \<open>
  The claim as worded fails: with one matching file holding a live key in each of
  \<^verbatim>\<open>app\<close> and \<^verbatim>\<open>lib\<close>, the check name \<^verbatim>\<open>no_hardcoded_secrets\<close> occurs twice among
  the outcomes of the category \<^verbatim>\<open>security\<close>.
\<close>

theorem check_name_repeats_counterexample:
  "report_check_names (validate_all security_only_config two_dirs_project)
     = [(''security'',
         [''env_example_exists'', ''no_hardcoded_secrets'', ''no_hardcoded_secrets''])]
   \<and> \<not> distinct [''env_example_exists'', ''no_hardcoded_secrets'', ''no_hardcoded_secrets'']"
  by (simp add: run_defs security_only_config_def two_dirs_project_def scan_defs
      report_check_names_def)

theorem check_name_fixes_severity_witness:
  "\<exists>report cat r1 r2.
     validate_all security_only_config two_dirs_project = Inr report
     \<and> (''security'', cat) \<in> set (categories report)
     \<and> r1 \<in> set (results cat) \<and> r2 \<in> set (results cat)
     \<and> r1 \<noteq> r2 \<and> check_name r1 = check_name r2
     \<and> severity r1 = severity r2 \<and> category r1 = ''security''
     \<and> severity r1 = expected_severity ''security'' (check_name r1)"
proof -
  let ?env = "\<lparr>category = ''security'', check_name = ''env_example_exists'', passed = False,
                severity = ''warning'', message = ''.env.local.example file exists'',
                details = Some ''Not found (recommended)''\<rparr>"
  let ?a = "\<lparr>category = ''security'', check_name = ''no_hardcoded_secrets'', passed = False,
                severity = ''critical'', message = ''Potential Stripe live key hardcoded'',
                details = Some ''Found in app/keys.{ts,tsx,js,jsx}''\<rparr>"
  let ?b = "\<lparr>category = ''security'', check_name = ''no_hardcoded_secrets'', passed = False,
                severity = ''critical'', message = ''Potential Stripe live key hardcoded'',
                details = Some ''Found in lib/keys.{ts,tsx,js,jsx}''\<rparr>"
  let ?cat = "\<lparr>name = ''security'', weight = 10, checks_passed = 0, checks_failed = 2,
               checks_warned = 1, score = 50 / 3, results = [?env, ?a, ?b]\<rparr>"
  let ?report = "\<lparr>overall_score = 50 / 3, grade = ''F'', categories = [(''security'', ?cat)]\<rparr>"
  have run: "validate_all security_only_config two_dirs_project = Inr ?report"
    by (rule two_dirs_run)
  have mem: "(''security'', ?cat) \<in> set (categories ?report)" by simp
  have ra: "?a \<in> set (results ?cat)" and rb: "?b \<in> set (results ?cat)" by simp_all
  have ne: "?a \<noteq> ?b" and nm: "check_name ?a = check_name ?b" by simp_all
  from check_name_fixes_severity [where cfg = security_only_config and snap = two_dirs_project
      and report = ?report and c = "''security''" and cat = ?cat and ?r1.0 = ?a and ?r2.0 = ?b]
    run mem ra rb nm
  have "severity ?a = severity ?b \<and> category ?a = ''security''
      \<and> severity ?a = expected_severity ''security'' (check_name ?a)"
    by blast
  with run mem ra rb ne nm show ?thesis
    by (intro exI [of _ ?report] exI [of _ ?cat] exI [of _ ?a] exI [of _ ?b]) blast
qed

subsection \<open>Files that cannot be read\<close>

text \<open>
  C9. The claim asks that a file that cannot be read or decoded is skipped and the run
  completes. \<^verbatim>\<open>_read_file\<close> swallows the exception and the secret scan reads with
  \<^verbatim>\<open>errors='ignore'\<close>, but \<^verbatim>\<open>validate_migrations\<close> reads every migration file outside
  any \<^verbatim>\<open>try\<close>, and \<^verbatim>\<open>validate_documentation\<close> tests a section against the
  \<^verbatim>\<open>None\<close> that \<^verbatim>\<open>_read_file\<close> returned. With one migration file that does not
  decode the run ends in \<^verbatim>\<open>UnicodeDecodeError\<close>; with a \<^verbatim>\<open>CLAUDE.md\<close> that cannot be
  opened and one required section it ends in \<^verbatim>\<open>TypeError\<close>. No report is produced.
\<close>

theorem unreadable_file_aborts_run:
  "validate_all migrations_only_config undecodable_migration_project
     = Inl (UnicodeDecodeError ''supabase/migrations/001_init.sql'')
   \<and> validate_all documentation_only_config unreadable_claude_md_project
     = Inl (TypeError ''argument of type NoneType is not iterable'')"
proof (rule conjI)
  show "validate_all migrations_only_config undecodable_migration_project
     = Inl (UnicodeDecodeError ''supabase/migrations/001_init.sql'')"
    by (simp add: run_defs migrations_only_config_def undecodable_migration_project_def
        glob_def basename_def)
next
  show "validate_all documentation_only_config unreadable_claude_md_project
     = Inl (TypeError ''argument of type NoneType is not iterable'')"
    by (simp add: run_defs documentation_only_config_def unreadable_claude_md_project_def
        read_file_def)
qed

subsection \<open>The pattern of the secret scan\<close>

text \<open>
  C10. The pattern \<^verbatim>\<open>*.{ts,tsx,js,jsx}\<close> is matched character for character apart
  from the \<^verbatim>\<open>*\<close>: a name matches exactly when it ends with the literal string
  \<^verbatim>\<open>.{ts,tsx,js,jsx}\<close>. So every file the secret scan reads has such a name; a name
  ending in \<^verbatim>\<open>.ts\<close>, \<^verbatim>\<open>.tsx\<close>, \<^verbatim>\<open>.js\<close> or \<^verbatim>\<open>.jsx\<close> does not match, and a file
  with such a name is never among the files read; and every \<^verbatim>\<open>no_hardcoded_secrets\<close>
  outcome in the report of a run belongs to the category security and names, in its
  details, a file that was read, whose name ends with \<^verbatim>\<open>.{ts,tsx,js,jsx}\<close>.
\<close>

theorem secret_scan_reads_only_brace_names:
  "(glob_match secret_scan_pattern nm \<longleftrightarrow> endswith nm ''.{ts,tsx,js,jsx}'')
   \<and> (e \<in> set (scanned_files snap d) \<longrightarrow>
        e \<in> set (descendants snap d) \<and> endswith (basename (rel_path e)) ''.{ts,tsx,js,jsx}'')
   \<and> (endswith nm ''.ts'' \<or> endswith nm ''.tsx'' \<or> endswith nm ''.js'' \<or> endswith nm ''.jsx''
        \<longrightarrow> \<not> glob_match secret_scan_pattern nm)
   \<and> (endswith (basename (rel_path e)) ''.ts'' \<or> endswith (basename (rel_path e)) ''.tsx''
        \<or> endswith (basename (rel_path e)) ''.js'' \<or> endswith (basename (rel_path e)) ''.jsx''
        \<longrightarrow> e \<notin> set (scanned_files snap d))
   \<and> (validate_all cfg snap = Inr report \<and> (c, cat) \<in> set (categories report)
        \<and> r \<in> set (results cat) \<and> check_name r = ''no_hardcoded_secrets''
        \<longrightarrow> c = ''security''
            \<and> (\<exists>d \<in> set security_source_dirs. \<exists>e \<in> set (scanned_files snap d).
                  details r = Some (''Found in '' @ rel_path e)
                  \<and> endswith (basename (rel_path e)) ''.{ts,tsx,js,jsx}''))"
  apply (intro conjI)
      apply (rule secret_scan_pattern_matches)
     apply (rule scanned_files_suffix)
    apply (rule ordinary_extension_not_matched)
   apply (rule ordinary_file_not_scanned)
  apply (rule run_secret_outcome_source)
  done

theorem secret_scan_reads_only_brace_names_witness:
  "endswith ''config.ts'' ''.ts''
   \<and> \<not> glob_match secret_scan_pattern ''config.ts''
   \<and> \<lparr>rel_path = ''src/config.ts'', node = RegularFile secret_text\<rparr>
        \<in> set (descendants ordinary_ts_project ''src'')
   \<and> holds_secret \<lparr>rel_path = ''src/config.ts'', node = RegularFile secret_text\<rparr>
   \<and> \<lparr>rel_path = ''src/config.ts'', node = RegularFile secret_text\<rparr>
        \<notin> set (scanned_files ordinary_ts_project ''src'')
   \<and> report_check_names (validate_all security_only_config ordinary_ts_project)
       = [(''security'', [''env_example_exists''])]
   \<and> \<lparr>rel_path = ''src/a.{ts,tsx,js,jsx}'', node = RegularFile secret_text\<rparr>
        \<in> set (scanned_files two_secrets_project ''src'')
   \<and> endswith (basename ''src/a.{ts,tsx,js,jsx}'') ''.{ts,tsx,js,jsx}''
   \<and> (\<exists>report cat r. validate_all security_only_config two_secrets_project = Inr report
         \<and> (''security'', cat) \<in> set (categories report) \<and> r \<in> set (results cat)
         \<and> check_name r = ''no_hardcoded_secrets''
         \<and> (\<exists>d \<in> set security_source_dirs. \<exists>e \<in> set (scanned_files two_secrets_project d).
               details r = Some (''Found in '' @ rel_path e)
               \<and> endswith (basename (rel_path e)) ''.{ts,tsx,js,jsx}''))"
proof -
  let ?e = "\<lparr>rel_path = ''src/config.ts'', node = RegularFile secret_text\<rparr>"
  let ?a = "\<lparr>rel_path = ''src/a.{ts,tsx,js,jsx}'', node = RegularFile secret_text\<rparr>"
  have 1: "endswith ''config.ts'' ''.ts''" by (simp add: endswith_def suffix_to_prefix)
  from secret_scan_reads_only_brace_names [where nm = "''config.ts''"] 1
  have 2: "\<not> glob_match secret_scan_pattern ''config.ts''" by blast
  have 3: "?e \<in> set (descendants ordinary_ts_project ''src'')"
    by (simp add: ordinary_ts_project_def)
  have 4: "holds_secret ?e"
    by (simp add: holds_secret_def secret_text_def dangerous_patterns_def str_in_def sublist_code)
  have "endswith (basename (rel_path ?e)) ''.ts''"
    by (simp add: basename_def endswith_def suffix_to_prefix)
  with secret_scan_reads_only_brace_names [where e = ?e and snap = ordinary_ts_project
      and d = "''src''"]
  have 5: "?e \<notin> set (scanned_files ordinary_ts_project ''src'')" by blast
  have 6: "report_check_names (validate_all security_only_config ordinary_ts_project)
       = [(''security'', [''env_example_exists''])]"
    by (simp add: run_defs security_only_config_def ordinary_ts_project_def scan_defs
        report_check_names_def)
  have 7: "?a \<in> set (scanned_files two_secrets_project ''src'')"
    by (simp add: two_secrets_project_def scan_defs file_exists_def is_dir_def)
  with secret_scan_reads_only_brace_names [where e = ?a and snap = two_secrets_project
      and d = "''src''"]
  have "endswith (basename (rel_path ?a)) ''.{ts,tsx,js,jsx}''" by blast
  then have 8: "endswith (basename ''src/a.{ts,tsx,js,jsx}'') ''.{ts,tsx,js,jsx}''" by simp
  let ?env = "\<lparr>category = ''security'', check_name = ''env_example_exists'', passed = False,
                severity = ''warning'', message = ''.env.local.example file exists'',
                details = Some ''Not found (recommended)''\<rparr>"
  let ?ra = "\<lparr>category = ''security'', check_name = ''no_hardcoded_secrets'', passed = False,
                severity = ''critical'', message = ''Potential Stripe live key hardcoded'',
                details = Some ''Found in src/a.{ts,tsx,js,jsx}''\<rparr>"
  let ?rb = "\<lparr>category = ''security'', check_name = ''no_hardcoded_secrets'', passed = False,
                severity = ''critical'', message = ''Potential Stripe live key hardcoded'',
                details = Some ''Found in src/b.{ts,tsx,js,jsx}''\<rparr>"
  let ?cat = "\<lparr>name = ''security'', weight = 10, checks_passed = 0, checks_failed = 2,
               checks_warned = 1, score = 50 / 3, results = [?env, ?ra, ?rb]\<rparr>"
  let ?report = "\<lparr>overall_score = 50 / 3, grade = ''F'', categories = [(''security'', ?cat)]\<rparr>"
  have run: "validate_all security_only_config two_secrets_project = Inr ?report"
    by (rule two_secrets_run)
  have mem: "(''security'', ?cat) \<in> set (categories ?report)" by simp
  have rin: "?ra \<in> set (results ?cat)" by simp
  have nm: "check_name ?ra = ''no_hardcoded_secrets''" by simp
  from secret_scan_reads_only_brace_names [where cfg = security_only_config
      and snap = two_secrets_project and report = ?report and c = "''security''" and cat = ?cat
      and r = ?ra] run mem rin nm
  have src: "\<exists>d \<in> set security_source_dirs. \<exists>e \<in> set (scanned_files two_secrets_project d).
               details ?ra = Some (''Found in '' @ rel_path e)
               \<and> endswith (basename (rel_path e)) ''.{ts,tsx,js,jsx}''"
    by blast
  from run mem rin nm src
  have 9: "\<exists>report cat r. validate_all security_only_config two_secrets_project = Inr report
         \<and> (''security'', cat) \<in> set (categories report) \<and> r \<in> set (results cat)
         \<and> check_name r = ''no_hardcoded_secrets''
         \<and> (\<exists>d \<in> set security_source_dirs. \<exists>e \<in> set (scanned_files two_secrets_project d).
               details r = Some (''Found in '' @ rel_path e)
               \<and> endswith (basename (rel_path e)) ''.{ts,tsx,js,jsx}'')"
    by (intro exI [of _ ?report] exI [of _ ?cat] exI [of _ ?ra] conjI)
  from 1 2 3 4 5 6 7 8 9 show ?thesis by (intro conjI)
qed

end
